theory Spec2Isabelle
  imports Complex_Main
begin

section \<open>Errors and the file system\<close>

text \<open>
  The script \<^verbatim>\<open>train_chess_model.py\<close> raises \<^verbatim>\<open>FileExistsError\<close> twice during
  setup (with two different messages) and a bare \<^verbatim>\<open>Exception\<close> for overfitting.
  The remaining constructors are the exceptions of Python, pandas and torch that
  the modelled statements can raise.
\<close>

datatype setup_failure = WeightsDirExists | DatasetNotFound

datatype error =
    ZeroDivisionError
  | ValueError
  | TypeError
  | AttributeError
  | FileNotFoundError
  | IsADirectoryError
  | EmptyDataError
  | ParserError
  | EvalError
  | RuntimeError
  | FileExistsError setup_failure
  | OverfittingException

text \<open>
  A path names a directory, the delimited table (its physical lines, in order),
  the log file, or a checkpoint holding a parameter snapshot.
\<close>

datatype ('r, 'p) node = Dir | Table "'r list" | LogFile | Checkpoint 'p

type_synonym ('r, 'p) fs = "string \<rightharpoonup> ('r, 'p) node"

section \<open>ChessDataset\<close>

text \<open>
  \<^verbatim>\<open>pd.read_csv(path, sep='|', skiprows=start, nrows=stop)\<close> with integer arguments:
  pandas rejects a negative \<^verbatim>\<open>nrows\<close>, skips the first \<^verbatim>\<open>skiprows\<close> physical lines of
  the file, takes the first line that is left as the header, and returns at most
  \<^verbatim>\<open>nrows\<close> of the lines after it. A file with no line left has no columns to parse.
\<close>

definition read_csv :: "('r, 'p) fs \<Rightarrow> string \<Rightarrow> int \<Rightarrow> int \<Rightarrow> error + 'r list" where
  "read_csv fs path skiprows nrows =
     (if nrows < 0 then Inl ValueError
      else case fs path of
        None \<Rightarrow> Inl FileNotFoundError
      | Some Dir \<Rightarrow> Inl IsADirectoryError
      | Some LogFile \<Rightarrow> Inl EmptyDataError
      | Some (Checkpoint w) \<Rightarrow> Inl ParserError
      | Some (Table file_lines) \<Rightarrow>
          (case drop (nat skiprows) file_lines of
             [] \<Rightarrow> Inl EmptyDataError
           | header # data \<Rightarrow> Inr (take (nat nrows) data)))"

text \<open>
  The body of the loop \<^verbatim>\<open>for series in chunk.iloc\<close>: every field but the last is passed
  to \<^verbatim>\<open>eval\<close> and packed into the input tensor, the last field becomes the label tensor,
  and both are moved to the device. The decoding of one row is the parameter
  \<open>decode\<close>; \<open>None\<close> stands for a row on which \<^verbatim>\<open>eval\<close> or the tensor constructor raises.
\<close>

fun decode_rows :: "('r \<Rightarrow> ('t \<times> 't) option) \<Rightarrow> 'r list \<Rightarrow> error + ('t \<times> 't) list" where
  "decode_rows decode [] = Inr []"
| "decode_rows decode (series # rest) =
     (case decode series of
        None \<Rightarrow> Inl EvalError
      | Some sample \<Rightarrow>
          (case decode_rows decode rest of
             Inl e \<Rightarrow> Inl e
           | Inr gpu_chunk \<Rightarrow> Inr (sample # gpu_chunk)))"

definition get_gpu_chunk ::
  "('r \<Rightarrow> ('t \<times> 't) option) \<Rightarrow> ('r, 'p) fs \<Rightarrow> string \<Rightarrow> int \<Rightarrow> int \<Rightarrow> error + ('t \<times> 't) list" where
  "get_gpu_chunk decode fs path start stop =
     (case read_csv fs path start stop of
        Inl e \<Rightarrow> Inl e
      | Inr chunk \<Rightarrow> decode_rows decode chunk)"

record 't ChessDataset =
  dataset_path :: string
  start_index :: int
  stop_index :: int
  chunk_size :: int
  is_test_dataset :: bool
  test_chunk :: "('t \<times> 't) list option"

text \<open>
  \<^verbatim>\<open>if ChessDataset._chunk_size > stop - start: self._chunk_size = stop - start\<close>, with
  the class attribute as the argument \<open>CHUNK\<close>.
\<close>

definition clamp_chunk_size :: "int \<Rightarrow> int \<Rightarrow> int \<Rightarrow> int" where
  "clamp_chunk_size CHUNK start stop =
     (if CHUNK > stop - start then stop - start else CHUNK)"

text \<open>
  \<^verbatim>\<open>bool((stop - start) // self._chunk_size)\<close>: Python's floor division, which is
  \<open>div\<close> on \<open>int\<close>, raising on a zero divisor.
\<close>

definition is_test_range :: "int \<Rightarrow> int \<Rightarrow> int \<Rightarrow> error + bool" where
  "is_test_range start stop csize =
     (if csize = 0 then Inl ZeroDivisionError
      else Inr ((stop - start) div csize \<noteq> 0))"

definition ChessDataset_init ::
  "('r \<Rightarrow> ('t \<times> 't) option) \<Rightarrow> int \<Rightarrow> ('r, 'p) fs \<Rightarrow> string \<Rightarrow> int \<Rightarrow> int
     \<Rightarrow> error + 't ChessDataset" where
  "ChessDataset_init decode CHUNK fs path start stop =
     (let csize = clamp_chunk_size CHUNK start stop in
      case is_test_range start stop csize of
        Inl e \<Rightarrow> Inl e
      | Inr is_test \<Rightarrow>
          if is_test then
            (case get_gpu_chunk decode fs path start stop of
               Inl e \<Rightarrow> Inl e
             | Inr gpu_chunk \<Rightarrow>
                 Inr \<lparr>dataset_path = path, start_index = start, stop_index = stop,
                      chunk_size = csize, is_test_dataset = True,
                      test_chunk = Some gpu_chunk\<rparr>)
          else
            Inr \<lparr>dataset_path = path, start_index = start, stop_index = stop,
                 chunk_size = csize, is_test_dataset = False, test_chunk = None\<rparr>)"

definition ChessDataset_len :: "'t ChessDataset \<Rightarrow> int" where
  "ChessDataset_len ds = stop_index ds - start_index ds"

text \<open>
  \<^verbatim>\<open>__iter__\<close> is a generator: what it yields is either one sample (a pair of tensors)
  or one chunk (a list of samples). Each element of the modelled sequence is the
  outcome of requesting the next item, so that a chunk that fails to load raises
  only when the consumer reaches it; the consumer stops at the first \<open>Inl\<close>.
\<close>

datatype 't item = Sample 't 't | Chunk "('t \<times> 't) list"

definition ChessDataset_iter ::
  "('r \<Rightarrow> ('t \<times> 't) option) \<Rightarrow> ('r, 'p) fs \<Rightarrow> 't ChessDataset \<Rightarrow> (error + 't item) list" where
  "ChessDataset_iter decode fs ds =
     (if is_test_dataset ds then
        (case test_chunk ds of
           None \<Rightarrow> [Inl TypeError]
         | Some resident \<Rightarrow> map (\<lambda>(x_as_tensor, y_as_tensor). Inr (Sample x_as_tensor y_as_tensor)) resident)
      else if chunk_size ds = 0 then [Inl ZeroDivisionError]
      else
        (let num_of_chunks = (stop_index ds - start_index ds) div chunk_size ds in
         map (\<lambda>i. case get_gpu_chunk decode fs (dataset_path ds)
                          (int i * start_index ds) (int i * start_index ds + chunk_size ds) of
                     Inl e \<Rightarrow> Inl e
                   | Inr gpu_chunk \<Rightarrow> Inr (Chunk gpu_chunk))
           [0 ..< nat num_of_chunks]))"

text \<open>The samples one full pass hands out, in order, when no request fails.\<close>

fun samples_of :: "'t item \<Rightarrow> ('t \<times> 't) list" where
  "samples_of (Sample x y) = [(x, y)]"
| "samples_of (Chunk gpu_chunk) = gpu_chunk"

fun yielded_samples :: "(error + 't item) list \<Rightarrow> error + ('t \<times> 't) list" where
  "yielded_samples [] = Inr []"
| "yielded_samples (Inl e # rest) = Inl e"
| "yielded_samples (Inr it # rest) =
     (case yielded_samples rest of
        Inl e \<Rightarrow> Inl e
      | Inr later \<Rightarrow> Inr (samples_of it @ later))"

text \<open>
  A table for examples: a header line followed by \<open>n\<close> data rows, where data row \<open>i\<close>
  (counted from 0) holds the number \<open>i\<close> and decodes to the sample \<open>(i, i)\<close>.
\<close>

definition numbered_table :: "nat \<Rightarrow> int list" where
  "numbered_table n = -1 # map int [0 ..< n]"

definition numbered_fs :: "string \<Rightarrow> nat \<Rightarrow> (int, 'p) fs" where
  "numbered_fs path n = Map.empty(path \<mapsto> Table (numbered_table n))"

definition decode_numbered :: "int \<Rightarrow> (int \<times> int) option" where
  "decode_numbered r = Some (r, r)"

section \<open>The stopping rule\<close>

text \<open>
  Step 4 of the epoch body, on the retained history \<^verbatim>\<open>test_losses\<close> and the epoch's
  validation loss. \<^verbatim>\<open>test_losses[-15:]\<close> is the last 15 entries (all of them when there
  are fewer). The result is the exception or the history the next epoch sees.
\<close>

definition last15 :: "'a list \<Rightarrow> 'a list" where
  "last15 xs = drop (length xs - 15) xs"

definition overfitting_test :: "real list \<Rightarrow> real \<Rightarrow> error + real list" where
  "overfitting_test history epoch_test_loss =
     (if length history > 15 then
        (let counter = length (filter (\<lambda>prev_loss. prev_loss < epoch_test_loss) (last15 history))
         in if counter = 15 then Inl OverfittingException
            else Inr (history @ [epoch_test_loss]))
      else Inr history)"

section \<open>Paths and names\<close>

text \<open>
  \<^verbatim>\<open>os.path.join(a, b)\<close> for a relative \<open>b\<close>, and the decimal text of an epoch number
  as an f-string prints it.
\<close>

definition path_join :: "string \<Rightarrow> string \<Rightarrow> string" where
  "path_join a b = (if a = [] \<or> last a = CHR ''/'' then a @ b else a @ ''/'' @ b)"

fun str_of_nat :: "nat \<Rightarrow> string" where
  "str_of_nat n =
     (if n < 10 then [char_of (48 + n)]
      else str_of_nat (n div 10) @ [char_of (48 + n mod 10)])"

declare str_of_nat.simps [simp del]

definition DIR_FOR_WEIGHTS :: "string \<Rightarrow> string" where
  "DIR_FOR_WEIGHTS cwd = path_join cwd ''weights''"

definition DATASET_PATH :: "string \<Rightarrow> string" where
  "DATASET_PATH cwd = path_join cwd ''TANH_NORM_CHESS_DATASET.csv''"

text \<open>
  The log file is opened under a relative name, which resolves against the working
  directory; \<open>uuid\<close> is the text of the random \<^verbatim>\<open>uuid.uuid4()\<close>.
\<close>

definition LOG_PATH :: "string \<Rightarrow> string \<Rightarrow> string" where
  "LOG_PATH cwd uuid = path_join cwd (''train_'' @ uuid @ ''.log'')"

definition checkpoint_path :: "string \<Rightarrow> nat \<Rightarrow> string" where
  "checkpoint_path cwd epoch_number =
     path_join (DIR_FOR_WEIGHTS cwd) (''model_epoch_'' @ str_of_nat epoch_number @ ''.pt'')"

section \<open>The training script\<close>

record config =
  NUMBER_OF_EPOCHS :: nat
  TRAIN_DATASET_LENGTH :: int
  TEST_DATASET_LENGTH :: int
  CHUNK_SIZE :: int

definition script_config :: config where
  "script_config = \<lparr>NUMBER_OF_EPOCHS = 300, TRAIN_DATASET_LENGTH = 81,
                     TEST_DATASET_LENGTH = 100000, CHUNK_SIZE = 9\<rparr>"

text \<open>
  What the script uses of torch, as parameters: tensors \<open>'t\<close>, the parameter state \<open>'p\<close> of
  the model, and the state \<open>'o\<close> of autograd and the optimizer (gradients and Adam's
  moments). \<open>layers\<close> is the stack \<^verbatim>\<open>conv_1 .. tanh\<close> of \<^verbatim>\<open>ChessModel.forward\<close> (its flag is
  the model's training mode); \<open>unpack_pair\<close> is Python's unpacking of one tensor into two
  names, \<open>None\<close> when it does not split into exactly two. \<open>layers\<close> and \<open>mse_loss\<close> give
  \<open>None\<close> where torch raises its \<^verbatim>\<open>RuntimeError\<close> (shapes that do not fit).
\<close>

record ('t, 'p, 'o) torch =
  unsqueeze :: "'t \<Rightarrow> 't"
  layers :: "'p \<Rightarrow> bool \<Rightarrow> 't \<Rightarrow> 't option"
  unpack_pair :: "'t \<Rightarrow> ('t \<times> 't) option"
  mse_loss :: "'t \<Rightarrow> 't \<Rightarrow> real option"
  zero_grad :: "'o \<Rightarrow> 'o"
  backward :: "'p \<Rightarrow> 't \<Rightarrow> 't \<Rightarrow> 'o \<Rightarrow> 'o"
  adam_step :: "'p \<Rightarrow> 'o \<Rightarrow> 'p \<times> 'o"
  new_model :: 'p
  new_optimizer :: "'p \<Rightarrow> 'o"

text \<open>
  What the run leaves outside the process, in order: lines written to the log file
  (without their timestamps), console lines, checkpoint writes, optimizer steps.
\<close>

datatype log_line = StartTime | EpochLine nat real real | StopTime

datatype 'p event =
    LogWrite log_line
  | ConsolePrint nat real real
  | TorchSave string 'p
  | OptimizerStep

text \<open>The variables of the script while the epochs run.\<close>

record ('r, 't, 'p, 'o) vars =
  files :: "('r, 'p) fs"
  trace :: "'p event list"
  params :: 'p
  opt :: 'o
  training :: bool
  test_losses :: "real list"
  epoch_train_loss :: real
  epoch_test_loss :: real
  DATASET_FOR_TRAIN :: "'t ChessDataset"
  DATASET_FOR_TEST :: "'t ChessDataset"

text \<open>
  A \<^verbatim>\<open>for\<close> loop whose body may raise: the first exception ends the loop and leaves the
  variables as they were when it was raised.
\<close>

fun for_each :: "('a \<Rightarrow> 's \<Rightarrow> error option \<times> 's) \<Rightarrow> 'a list \<Rightarrow> 's \<Rightarrow> error option \<times> 's" where
  "for_each body [] st = (None, st)"
| "for_each body (x # xs) st =
     (case body x st of
        (Some e, st') \<Rightarrow> (Some e, st')
      | (None, st') \<Rightarrow> for_each body xs st')"

definition and_then ::
  "('s \<Rightarrow> error option \<times> 's) \<Rightarrow> ('s \<Rightarrow> error option \<times> 's) \<Rightarrow> 's \<Rightarrow> error option \<times> 's" where
  "and_then f g st =
     (case f st of
        (Some e, st') \<Rightarrow> (Some e, st')
      | (None, st') \<Rightarrow> g st')"

text \<open>
  \<^verbatim>\<open>MODEL(input_data)\<close>: \<^verbatim>\<open>forward\<close> first unsqueezes its argument in place, then applies
  the layers.
\<close>

definition ChessModel_forward :: "('t, 'p, 'o) torch \<Rightarrow> 'p \<Rightarrow> bool \<Rightarrow> 't \<Rightarrow> error + 't" where
  "ChessModel_forward ops p train_mode x =
     (case layers ops p train_mode (unsqueeze ops x) of
        None \<Rightarrow> Inl RuntimeError
      | Some y \<Rightarrow> Inr y)"

text \<open>The body of the inner training loop, for one pair \<^verbatim>\<open>input_data, target\<close>.\<close>

definition train_sample ::
  "('t, 'p, 'o) torch \<Rightarrow> 't \<times> 't \<Rightarrow> ('r, 't, 'p, 'o) vars \<Rightarrow> error option \<times> ('r, 't, 'p, 'o) vars" where
  "train_sample ops pair st =
     (let input_data = fst pair; target = snd pair;
          st1 = st\<lparr>opt := zero_grad ops (opt st)\<rparr>
      in case ChessModel_forward ops (params st1) (training st1) input_data of
           Inl e \<Rightarrow> (Some e, st1)
         | Inr output_data \<Rightarrow>
             (case mse_loss ops output_data target of
                None \<Rightarrow> (Some RuntimeError, st1)
              | Some train_loss \<Rightarrow>
                  (let st2 = st1\<lparr>opt := backward ops (params st1) input_data target (opt st1),
                                 epoch_train_loss := epoch_train_loss st1 + train_loss\<rparr>;
                       stepped = adam_step ops (params st2) (opt st2)
                   in (None, st2\<lparr>params := fst stepped, opt := snd stepped,
                                  trace := trace st2 @ [OptimizerStep]\<rparr>))))"

text \<open>
  \<^verbatim>\<open>for input_data, target in train_chunk\<close> on one item of the training source. A chunk
  is a list of pairs. A bare sample is a tuple of two tensors, so the loop visits the
  input tensor and then the label tensor, unpacking each into two.
\<close>

definition train_unpacked ::
  "('t, 'p, 'o) torch \<Rightarrow> 't \<Rightarrow> ('r, 't, 'p, 'o) vars \<Rightarrow> error option \<times> ('r, 't, 'p, 'o) vars" where
  "train_unpacked ops element st =
     (case unpack_pair ops element of
        None \<Rightarrow> (Some ValueError, st)
      | Some pair \<Rightarrow> train_sample ops pair st)"

fun train_item ::
  "('t, 'p, 'o) torch \<Rightarrow> error + 't item \<Rightarrow> ('r, 't, 'p, 'o) vars
     \<Rightarrow> error option \<times> ('r, 't, 'p, 'o) vars" where
  "train_item ops (Inl e) st = (Some e, st)"
| "train_item ops (Inr (Chunk train_chunk)) st = for_each (train_sample ops) train_chunk st"
| "train_item ops (Inr (Sample x y)) st = for_each (train_unpacked ops) [x, y] st"

definition training_pass ::
  "('t, 'p, 'o) torch \<Rightarrow> ('r \<Rightarrow> ('t \<times> 't) option) \<Rightarrow> ('r, 't, 'p, 'o) vars
     \<Rightarrow> error option \<times> ('r, 't, 'p, 'o) vars" where
  "training_pass ops decode st =
     (let st1 = st\<lparr>epoch_train_loss := 0, training := True\<rparr>
      in for_each (train_item ops)
           (ChessDataset_iter decode (files st1) (DATASET_FOR_TRAIN st1)) st1)"

text \<open>
  \<^verbatim>\<open>for input_data, target in DATASET_FOR_TEST\<close> on the item at position \<open>i\<close>. A sample
  unpacks into its two tensors; the forward pass unsqueezes the resident input tensor
  in place, which the data source keeps. A chunk unpacks only when it holds exactly
  two samples, and then \<^verbatim>\<open>input_data\<close> is a tuple, which has no \<^verbatim>\<open>unsqueeze_\<close>.
\<close>

definition unsqueeze_resident :: "('t, 'p, 'o) torch \<Rightarrow> nat \<Rightarrow> 't ChessDataset \<Rightarrow> 't ChessDataset" where
  "unsqueeze_resident ops i ds =
     ds\<lparr>test_chunk :=
          map_option (\<lambda>resident.
             if i < length resident
             then resident[i := (unsqueeze ops (fst (resident ! i)), snd (resident ! i))]
             else resident) (test_chunk ds)\<rparr>"

fun validate_item ::
  "('t, 'p, 'o) torch \<Rightarrow> nat \<times> (error + 't item) \<Rightarrow> ('r, 't, 'p, 'o) vars
     \<Rightarrow> error option \<times> ('r, 't, 'p, 'o) vars" where
  "validate_item ops (i, Inl e) st = (Some e, st)"
| "validate_item ops (i, Inr (Chunk gpu_chunk)) st =
     (if length gpu_chunk = 2 then (Some AttributeError, st) else (Some ValueError, st))"
| "validate_item ops (i, Inr (Sample input_data target)) st =
     (let st1 = st\<lparr>DATASET_FOR_TEST := unsqueeze_resident ops i (DATASET_FOR_TEST st)\<rparr> in
      case ChessModel_forward ops (params st1) (training st1) input_data of
        Inl e \<Rightarrow> (Some e, st1)
      | Inr output_data \<Rightarrow>
          (case mse_loss ops output_data target of
             None \<Rightarrow> (Some RuntimeError, st1)
           | Some loss \<Rightarrow> (None, st1\<lparr>epoch_test_loss := epoch_test_loss st1 + loss\<rparr>)))"

definition validation_pass ::
  "('t, 'p, 'o) torch \<Rightarrow> ('r \<Rightarrow> ('t \<times> 't) option) \<Rightarrow> ('r, 't, 'p, 'o) vars
     \<Rightarrow> error option \<times> ('r, 't, 'p, 'o) vars" where
  "validation_pass ops decode st =
     (let st1 = st\<lparr>epoch_test_loss := 0, training := False\<rparr>;
          yielded = ChessDataset_iter decode (files st1) (DATASET_FOR_TEST st1)
      in for_each (validate_item ops) (zip [0 ..< length yielded] yielded) st1)"

text \<open>
  The two averages. The accumulator is still the integer 0 when the length is 0 (a
  source of length 0 yields nothing), so the division raises.
\<close>

definition average_train_loss ::
  "config \<Rightarrow> ('r, 't, 'p, 'o) vars \<Rightarrow> error option \<times> ('r, 't, 'p, 'o) vars" where
  "average_train_loss cfg st =
     (if TRAIN_DATASET_LENGTH cfg = 0 then (Some ZeroDivisionError, st)
      else (None, st\<lparr>epoch_train_loss := epoch_train_loss st / real_of_int (TRAIN_DATASET_LENGTH cfg)\<rparr>))"

definition average_test_loss ::
  "config \<Rightarrow> ('r, 't, 'p, 'o) vars \<Rightarrow> error option \<times> ('r, 't, 'p, 'o) vars" where
  "average_test_loss cfg st =
     (if TEST_DATASET_LENGTH cfg = 0 then (Some ZeroDivisionError, st)
      else (None, st\<lparr>epoch_test_loss := epoch_test_loss st / real_of_int (TEST_DATASET_LENGTH cfg)\<rparr>))"

text \<open>Step 3: the console line, the log line, and \<^verbatim>\<open>torch.save\<close> of the parameters.\<close>

definition report_and_save ::
  "string \<Rightarrow> nat \<Rightarrow> ('r, 't, 'p, 'o) vars \<Rightarrow> error option \<times> ('r, 't, 'p, 'o) vars" where
  "report_and_save cwd epoch_number st =
     (None,
      st\<lparr>trace := trace st @
            [ConsolePrint epoch_number (epoch_train_loss st) (epoch_test_loss st),
             LogWrite (EpochLine epoch_number (epoch_train_loss st) (epoch_test_loss st)),
             TorchSave (checkpoint_path cwd epoch_number) (params st)],
         files := (files st)(checkpoint_path cwd epoch_number \<mapsto> Checkpoint (params st))\<rparr>)"

definition overfitting_step ::
  "('r, 't, 'p, 'o) vars \<Rightarrow> error option \<times> ('r, 't, 'p, 'o) vars" where
  "overfitting_step st =
     (case overfitting_test (test_losses st) (epoch_test_loss st) of
        Inl e \<Rightarrow> (Some e, st)
      | Inr history \<Rightarrow> (None, st\<lparr>test_losses := history\<rparr>))"

definition epoch ::
  "config \<Rightarrow> ('t, 'p, 'o) torch \<Rightarrow> ('r \<Rightarrow> ('t \<times> 't) option) \<Rightarrow> string \<Rightarrow> nat
     \<Rightarrow> ('r, 't, 'p, 'o) vars \<Rightarrow> error option \<times> ('r, 't, 'p, 'o) vars" where
  "epoch cfg ops decode cwd epoch_number =
     and_then (training_pass ops decode)
    (and_then (average_train_loss cfg)
    (and_then (validation_pass ops decode)
    (and_then (average_test_loss cfg)
    (and_then (report_and_save cwd epoch_number)
              overfitting_step))))"

definition epochs ::
  "config \<Rightarrow> ('t, 'p, 'o) torch \<Rightarrow> ('r \<Rightarrow> ('t \<times> 't) option) \<Rightarrow> string \<Rightarrow> nat list
     \<Rightarrow> ('r, 't, 'p, 'o) vars \<Rightarrow> error option \<times> ('r, 't, 'p, 'o) vars" where
  "epochs cfg ops decode cwd numbers = for_each (epoch cfg ops decode cwd) numbers"

text \<open>
  The script from its first statement. The log file is opened for writing before
  anything is checked (the random name is taken not to name a directory); then the
  two setup checks, the start line, the two data sources, the model and the
  optimizer, the epochs \<^verbatim>\<open>range(1, NUMBER_OF_EPOCHS + 1)\<close>, and the stop line. The result
  is the exception that ended the run, if any, with the file system and the trace
  it left.
\<close>

record ('r, 'p) world =
  left_files :: "('r, 'p) fs"
  left_trace :: "'p event list"

definition world_of :: "('r, 't, 'p, 'o) vars \<Rightarrow> ('r, 'p) world" where
  "world_of st = \<lparr>left_files = files st, left_trace = trace st\<rparr>"

definition initial_vars ::
  "('t, 'p, 'o) torch \<Rightarrow> ('r, 'p) fs \<Rightarrow> 't ChessDataset \<Rightarrow> 't ChessDataset \<Rightarrow> ('r, 't, 'p, 'o) vars" where
  "initial_vars ops fs train test =
     \<lparr>files = fs, trace = [LogWrite StartTime],
      params = new_model ops, opt = new_optimizer ops (new_model ops), training = True,
      test_losses = [], epoch_train_loss = 0, epoch_test_loss = 0,
      DATASET_FOR_TRAIN = train, DATASET_FOR_TEST = test\<rparr>"

definition run ::
  "config \<Rightarrow> ('t, 'p, 'o) torch \<Rightarrow> ('r \<Rightarrow> ('t \<times> 't) option) \<Rightarrow> string \<Rightarrow> string \<Rightarrow> ('r, 'p) fs
     \<Rightarrow> error option \<times> ('r, 'p) world" where
  "run cfg ops decode cwd uuid fs0 =
     (let fs1 = fs0(LOG_PATH cwd uuid \<mapsto> LogFile) in
      if fs1 (DIR_FOR_WEIGHTS cwd) \<noteq> None then
        (Some (FileExistsError WeightsDirExists), \<lparr>left_files = fs1, left_trace = []\<rparr>)
      else
        let fs2 = fs1(DIR_FOR_WEIGHTS cwd \<mapsto> Dir) in
        if fs2 (DATASET_PATH cwd) = None then
          (Some (FileExistsError DatasetNotFound), \<lparr>left_files = fs2, left_trace = []\<rparr>)
        else
          case ChessDataset_init decode (CHUNK_SIZE cfg) fs2 (DATASET_PATH cwd)
                 0 (TRAIN_DATASET_LENGTH cfg) of
            Inl e \<Rightarrow> (Some e, \<lparr>left_files = fs2, left_trace = [LogWrite StartTime]\<rparr>)
          | Inr train \<Rightarrow>
              (case ChessDataset_init decode (CHUNK_SIZE cfg) fs2 (DATASET_PATH cwd)
                      (TRAIN_DATASET_LENGTH cfg)
                      (TRAIN_DATASET_LENGTH cfg + TEST_DATASET_LENGTH cfg) of
                 Inl e \<Rightarrow> (Some e, \<lparr>left_files = fs2, left_trace = [LogWrite StartTime]\<rparr>)
               | Inr test \<Rightarrow>
                   (case epochs cfg ops decode cwd [1 ..< Suc (NUMBER_OF_EPOCHS cfg)]
                           (initial_vars ops fs2 train test) of
                      (Some e, st) \<Rightarrow> (Some e, world_of st)
                    | (None, st) \<Rightarrow>
                        (None, \<lparr>left_files = files st,
                                left_trace = trace st @ [LogWrite StopTime]\<rparr>))))"

definition main ::
  "('t, 'p, 'o) torch \<Rightarrow> ('r \<Rightarrow> ('t \<times> 't) option) \<Rightarrow> string \<Rightarrow> string \<Rightarrow> ('r, 'p) fs
     \<Rightarrow> error option \<times> ('r, 'p) world" where
  "main = run script_config"

text \<open>What a trace shows: the checkpoint writes, the epochs logged, the optimizer steps.\<close>

fun checkpoint_writes :: "'p event list \<Rightarrow> (string \<times> 'p) list" where
  "checkpoint_writes [] = []"
| "checkpoint_writes (TorchSave path w # evs) = (path, w) # checkpoint_writes evs"
| "checkpoint_writes (ev # evs) = checkpoint_writes evs"

fun logged_epochs :: "'p event list \<Rightarrow> nat list" where
  "logged_epochs [] = []"
| "logged_epochs (LogWrite (EpochLine n train_mse test_mse) # evs) = n # logged_epochs evs"
| "logged_epochs (ev # evs) = logged_epochs evs"

fun optimizer_steps :: "'p event list \<Rightarrow> nat" where
  "optimizer_steps [] = 0"
| "optimizer_steps (OptimizerStep # evs) = Suc (optimizer_steps evs)"
| "optimizer_steps (ev # evs) = optimizer_steps evs"

fun logged_test_losses :: "'p event list \<Rightarrow> real list" where
  "logged_test_losses [] = []"
| "logged_test_losses (LogWrite (EpochLine n train_mse test_mse) # evs) =
     test_mse # logged_test_losses evs"
| "logged_test_losses (ev # evs) = logged_test_losses evs"

text \<open>
  What the steps before the report leave alone (the files, the retained history, the
  checkpoints written and the epochs logged), what the validation pass leaves alone,
  and steps 1 and 2 of the epoch body as one unit.
\<close>

abbreviation outside ::
  "('r, 't, 'p, 'o) vars \<Rightarrow> ('r, 'p) fs \<times> real list \<times> (string \<times> 'p) list \<times> nat list" where
  "outside st \<equiv> (files st, test_losses st, checkpoint_writes (trace st), logged_epochs (trace st))"

abbreviation learner :: "('r, 't, 'p, 'o) vars \<Rightarrow> 'p \<times> 'o \<times> 'p event list" where
  "learner st \<equiv> (params st, opt st, trace st)"

abbreviation passes ::
  "config \<Rightarrow> ('t, 'p, 'o) torch \<Rightarrow> ('r \<Rightarrow> ('t \<times> 't) option)
     \<Rightarrow> ('r, 't, 'p, 'o) vars \<Rightarrow> error option \<times> ('r, 't, 'p, 'o) vars" where
  "passes cfg ops decode \<equiv>
     and_then (training_pass ops decode)
    (and_then (average_train_loss cfg)
    (and_then (validation_pass ops decode) (average_test_loss cfg)))"

text \<open>
  A stand-in for torch in examples: the parameter state counts the optimizer steps
  taken, the model outputs that count, and the loss is the output, so the validation
  loss grows from every epoch to the next.
\<close>

definition counting_torch :: "(int, nat, unit) torch" where
  "counting_torch =
     \<lparr>unsqueeze = (\<lambda>x. x),
      layers = (\<lambda>p train_mode x. Some (int p)),
      unpack_pair = (\<lambda>t. Some (t, t)),
      mse_loss = (\<lambda>output_data target. Some (real_of_int output_data)),
      zero_grad = (\<lambda>state. state),
      backward = (\<lambda>p x y state. state),
      adam_step = (\<lambda>p state. (Suc p, state)),
      new_model = 0,
      new_optimizer = (\<lambda>p. ())\<rparr>"

text \<open>
  A small configuration (one training row, one evaluation row) and a file system
  holding only the table, with a header line and two data rows.
\<close>

definition example_config :: "nat \<Rightarrow> config" where
  "example_config n =
     \<lparr>NUMBER_OF_EPOCHS = n, TRAIN_DATASET_LENGTH = 1, TEST_DATASET_LENGTH = 1, CHUNK_SIZE = 9\<rparr>"

definition example_fs :: "string \<Rightarrow> (int, nat) fs" where
  "example_fs cwd = numbered_fs (DATASET_PATH cwd) 2"



section \<open>Properties of ChessDataset\<close>

lemma clamp_chunk_size_pos:
  "0 < CHUNK \<Longrightarrow> start < stop \<Longrightarrow> 0 < clamp_chunk_size CHUNK start stop"
  by (simp add: clamp_chunk_size_def)

lemma clamp_chunk_size_le:
  "clamp_chunk_size CHUNK start stop \<le> stop - start"
  by (simp add: clamp_chunk_size_def)

lemma get_gpu_chunk_no_zero_division:
  "get_gpu_chunk decode fs path start stop \<noteq> Inl ZeroDivisionError"
proof -
  have rows: "decode_rows decode rs \<noteq> Inl ZeroDivisionError" for rs
    by (induction rs) (auto split: option.splits sum.splits)
  have "read_csv fs path start stop \<noteq> Inl ZeroDivisionError"
    by (auto simp: read_csv_def split: option.splits node.splits list.splits)
  then show ?thesis
    using rows by (auto simp: get_gpu_chunk_def split: sum.splits)
qed

lemma is_test_range_always_true:
  assumes "0 < CHUNK" "start < stop"
  shows "is_test_range start stop (clamp_chunk_size CHUNK start stop) = Inr True"
proof -
  let ?c = "clamp_chunk_size CHUNK start stop"
  have pos: "0 < ?c" using assms by (rule clamp_chunk_size_pos)
  have le: "?c \<le> stop - start" by (rule clamp_chunk_size_le)
  have "0 < (stop - start) div ?c"
    using pos le pos_imp_zdiv_pos_iff [of ?c "stop - start"] by simp
  then show ?thesis using pos by (simp add: is_test_range_def)
qed

text \<open>
  Claim C10. With a positive configured chunk size, an empty range (stop equal to
  start) clamps the chunk size to zero and the constructor raises ZeroDivisionError;
  for stop greater than start the clamped chunk size is strictly positive and neither
  the mode classification nor the constructor raises ZeroDivisionError.
\<close>

theorem empty_range_zero_division:
  assumes "0 < CHUNK"
  shows "clamp_chunk_size CHUNK start start = 0
       \<and> ChessDataset_init decode CHUNK fs path start start = Inl ZeroDivisionError
       \<and> (start < stop \<longrightarrow>
            0 < clamp_chunk_size CHUNK start stop
          \<and> is_test_range start stop (clamp_chunk_size CHUNK start stop) \<noteq> Inl ZeroDivisionError
          \<and> ChessDataset_init decode CHUNK fs path start stop \<noteq> Inl ZeroDivisionError)"
proof -
  have zero: "clamp_chunk_size CHUNK start start = 0"
    using assms by (simp add: clamp_chunk_size_def)
  have raise: "ChessDataset_init decode CHUNK fs path start start = Inl ZeroDivisionError"
    by (simp add: ChessDataset_init_def zero is_test_range_def)
  have rest: "0 < clamp_chunk_size CHUNK start stop
          \<and> is_test_range start stop (clamp_chunk_size CHUNK start stop) \<noteq> Inl ZeroDivisionError
          \<and> ChessDataset_init decode CHUNK fs path start stop \<noteq> Inl ZeroDivisionError"
    if lt: "start < stop"
  proof -
    have t: "is_test_range start stop (clamp_chunk_size CHUNK start stop) = Inr True"
      using assms lt by (rule is_test_range_always_true)
    have "ChessDataset_init decode CHUNK fs path start stop \<noteq> Inl ZeroDivisionError"
      using get_gpu_chunk_no_zero_division [of decode fs path start stop]
      by (auto simp: ChessDataset_init_def t split: sum.splits)
    then show ?thesis using t clamp_chunk_size_pos [OF assms lt] by simp
  qed
  show ?thesis using zero raise rest by blast
qed

theorem empty_range_zero_division_witness:
  "clamp_chunk_size 9 5 5 = 0
   \<and> ChessDataset_init decode_numbered 9 (numbered_fs ''t.csv'' 10 :: (int, unit) fs) ''t.csv'' 5 5
       = Inl ZeroDivisionError
   \<and> clamp_chunk_size 9 5 8 = 3
   \<and> is_test_range 5 8 (clamp_chunk_size 9 5 8) = Inr True
   \<and> map_sum id test_chunk
        (ChessDataset_init decode_numbered 9 (numbered_fs ''t.csv'' 10 :: (int, unit) fs) ''t.csv'' 5 8)
       = Inr (Some [(5, 5), (6, 6), (7, 7), (8, 8), (9, 9)])"
proof -
  have h: "(0::int) < 9" and lt: "(5::int) < 8" by simp_all
  note t = empty_range_zero_division
    [OF h, of 5 decode_numbered "numbered_fs ''t.csv'' 10 :: (int, unit) fs" "''t.csv''" 8]
  have a: "clamp_chunk_size 9 5 8 = 3" by (simp add: clamp_chunk_size_def)
  have b: "is_test_range 5 8 (clamp_chunk_size 9 5 8) = Inr True"
    by (simp add: a is_test_range_def)
  have c: "map_sum id test_chunk
        (ChessDataset_init decode_numbered 9 (numbered_fs ''t.csv'' 10 :: (int, unit) fs) ''t.csv'' 5 8)
       = Inr (Some [(5, 5), (6, 6), (7, 7), (8, 8), (9, 9)])" by code_simp
  show ?thesis using t lt a b c by simp
qed

text \<open>
  Claim C1. The claim puts a range longer than the configured chunk size in training
  mode. The constructor, given the script's own training range (rows 0 to 81, chunk
  size 9) on a table of 81 rows, classifies it as a test dataset: the quotient of the
  range length by the clamped chunk size is never zero for a non-empty range.
\<close>

theorem train_range_is_test_dataset:
  "map_sum id is_test_dataset
     (ChessDataset_init decode_numbered 9 (numbered_fs ''t.csv'' 81 :: (int, unit) fs) ''t.csv'' 0 81)
   = Inr True"
  by code_simp

lemma init_never_training_mode:
  assumes "0 < CHUNK" "start < stop"
    and "ChessDataset_init decode CHUNK fs path start stop = Inr ds"
  shows "is_test_dataset ds"
  using assms(3) is_test_range_always_true [OF assms(1,2)]
  by (auto simp: ChessDataset_init_def Let_def split: sum.splits)

text \<open>
  Claim C2. The claim has one pass over a range longer than the chunk size hand out
  chunks that cover the range, \<open>stop - start\<close> samples in all. The dataset the
  constructor builds for rows 1 to 19 (18 rows, twice the chunk size 9) of a table of
  25 rows is a test dataset: one pass hands out no chunk but 19 bare samples, rows 1
  to 19, the last of them outside the range.
\<close>

theorem long_range_yields_bare_samples:
  "map_sum id
     (\<lambda>ds. (is_test_dataset ds,
             ChessDataset_iter decode_numbered (numbered_fs ''t.csv'' 25 :: (int, unit) fs) ds))
     (ChessDataset_init decode_numbered 9 (numbered_fs ''t.csv'' 25 :: (int, unit) fs) ''t.csv'' 1 19)
   = Inr (True,
       [Inr (Sample 1 1), Inr (Sample 2 2), Inr (Sample 3 3), Inr (Sample 4 4), Inr (Sample 5 5),
        Inr (Sample 6 6), Inr (Sample 7 7), Inr (Sample 8 8), Inr (Sample 9 9),
        Inr (Sample 10 10), Inr (Sample 11 11), Inr (Sample 12 12), Inr (Sample 13 13),
        Inr (Sample 14 14), Inr (Sample 15 15), Inr (Sample 16 16), Inr (Sample 17 17),
        Inr (Sample 18 18), Inr (Sample 19 19)])"
  by code_simp

text \<open>
  Claim C3. The claim has a range no longer than the chunk size yield its
  \<open>stop - start\<close> rows. The dataset built for rows 2 to 5 of a table of 10 rows is in
  evaluation mode but yields five samples, rows 2 to 6: the stop index is passed as
  the number of rows to read.
\<close>

theorem test_chunk_reads_stop_rows:
  "map_sum id
     (\<lambda>ds. (is_test_dataset ds,
             yielded_samples (ChessDataset_iter decode_numbered
                (numbered_fs ''t.csv'' 10 :: (int, unit) fs) ds)))
     (ChessDataset_init decode_numbered 9 (numbered_fs ''t.csv'' 10 :: (int, unit) fs) ''t.csv'' 2 5)
   = Inr (True, Inr [(2, 2), (3, 3), (4, 4), (5, 5), (6, 6)])"
  by code_simp

section \<open>Properties of the stopping rule\<close>

lemma length_filter_all: "length (filter P xs) = length xs \<longleftrightarrow> (\<forall>x \<in> set xs. P x)"
proof (induction xs)
  case Nil
  show ?case by simp
next
  case (Cons x xs)
  have le: "length (filter P xs) \<le> length xs" by (rule length_filter_le)
  show ?case
  proof (cases "P x")
    case True
    with Cons show ?thesis by simp
  next
    case False
    have "length (filter P xs) \<noteq> Suc (length xs)" using le by arith
    with False show ?thesis by simp
  qed
qed

lemma length_last15: "15 < length xs \<Longrightarrow> length (last15 xs) = 15"
  by (simp add: last15_def)

lemma overfitting_test_raises:
  "overfitting_test history loss = Inl OverfittingException \<longleftrightarrow>
      15 < length history \<and> (\<forall>prev \<in> set (last15 history). prev < loss)"
proof (cases "15 < length history")
  case True
  then have "length (last15 history) = 15" by (rule length_last15)
  then have "length (filter (\<lambda>prev. prev < loss) (last15 history)) = 15
      \<longleftrightarrow> (\<forall>prev \<in> set (last15 history). prev < loss)"
    using length_filter_all [of "\<lambda>prev. prev < loss" "last15 history"] by simp
  with True show ?thesis by (simp add: overfitting_test_def Let_def)
next
  case False
  then show ?thesis by (simp add: overfitting_test_def)
qed

section \<open>Paths, loops and sequencing\<close>

lemma path_join_last: "b \<noteq> [] \<Longrightarrow> last (path_join a b) = last b"
  by (simp add: path_join_def)

lemma weights_dir_not_dataset: "DIR_FOR_WEIGHTS cwd \<noteq> DATASET_PATH cwd"
proof
  assume "DIR_FOR_WEIGHTS cwd = DATASET_PATH cwd"
  then have "last (DIR_FOR_WEIGHTS cwd) = last (DATASET_PATH cwd)" by simp
  then show False by (simp add: DIR_FOR_WEIGHTS_def DATASET_PATH_def path_join_last)
qed

lemma log_not_weights_dir: "LOG_PATH cwd uuid \<noteq> DIR_FOR_WEIGHTS cwd"
proof
  assume "LOG_PATH cwd uuid = DIR_FOR_WEIGHTS cwd"
  then have "last (LOG_PATH cwd uuid) = last (DIR_FOR_WEIGHTS cwd)" by simp
  then show False by (simp add: DIR_FOR_WEIGHTS_def LOG_PATH_def path_join_last)
qed

lemma log_not_dataset: "LOG_PATH cwd uuid \<noteq> DATASET_PATH cwd"
proof
  assume "LOG_PATH cwd uuid = DATASET_PATH cwd"
  then have "last (LOG_PATH cwd uuid) = last (DATASET_PATH cwd)" by simp
  then show False by (simp add: DATASET_PATH_def LOG_PATH_def path_join_last)
qed

lemma str_of_nat_not_empty: "str_of_nat n \<noteq> []"
  by (subst str_of_nat.simps) simp


lemma digit_char_inj:
  assumes "a < 10" "b < 10" "char_of (48 + a) = (char_of (48 + b) :: char)"
  shows "a = (b::nat)"
proof -
  have "of_char (char_of (48 + a) :: char) = (of_char (char_of (48 + b) :: char) :: nat)"
    using assms(3) by simp
  then show ?thesis using assms(1,2) by simp
qed

lemma str_of_nat_small: "n < 10 \<Longrightarrow> str_of_nat n = [char_of (48 + n)]"
  by (subst str_of_nat.simps) simp

lemma str_of_nat_big:
  "\<not> n < 10 \<Longrightarrow> str_of_nat n = str_of_nat (n div 10) @ [char_of (48 + n mod 10)]"
  by (subst str_of_nat.simps) simp

lemma str_of_nat_inj: "str_of_nat m = str_of_nat n \<Longrightarrow> m = n"
proof (induction m arbitrary: n rule: str_of_nat.induct)
  case (1 m)
  show ?case
  proof (cases "m < 10")
    case small_m: True
    show ?thesis
    proof (cases "n < 10")
      case True
      with small_m "1.prems" have "char_of (48 + m) = (char_of (48 + n) :: char)"
        by (simp add: str_of_nat_small)
      with small_m True show ?thesis by (rule digit_char_inj)
    next
      case False
      with small_m "1.prems"
      have "[char_of (48 + m)] = str_of_nat (n div 10) @ [char_of (48 + n mod 10)]"
        by (simp add: str_of_nat_small str_of_nat_big)
      then have "str_of_nat (n div 10) = []" by (simp add: Cons_eq_append_conv)
      then show ?thesis using str_of_nat_not_empty [of "n div 10"] by simp
    qed
  next
    case big_m: False
    show ?thesis
    proof (cases "n < 10")
      case True
      with big_m "1.prems"
      have "str_of_nat (m div 10) @ [char_of (48 + m mod 10)] = [char_of (48 + n)]"
        by (simp add: str_of_nat_small str_of_nat_big)
      then have "str_of_nat (m div 10) = []" by (simp add: append_eq_Cons_conv)
      then show ?thesis using str_of_nat_not_empty [of "m div 10"] by simp
    next
      case False
      with big_m "1.prems" have "str_of_nat (m div 10) @ [char_of (48 + m mod 10)]
          = str_of_nat (n div 10) @ [char_of (48 + n mod 10)]"
        by (simp add: str_of_nat_big)
      then have s: "str_of_nat (m div 10) = str_of_nat (n div 10)"
        and d: "char_of (48 + m mod 10) = (char_of (48 + n mod 10) :: char)" by simp_all
      have q: "m div 10 = n div 10" using "1.IH" [OF big_m s] .
      have "m mod 10 < 10" and "n mod 10 < 10" by simp_all
      then have r: "m mod 10 = n mod 10" using d by (rule digit_char_inj)
      have "m = 10 * (m div 10) + m mod 10" by simp
      also have "\<dots> = 10 * (n div 10) + n mod 10" by (simp only: q r)
      also have "\<dots> = n" by simp
      finally show ?thesis .
    qed
  qed
qed

lemma checkpoint_path_inj: "checkpoint_path cwd m = checkpoint_path cwd n \<Longrightarrow> m = n"
proof -
  assume "checkpoint_path cwd m = checkpoint_path cwd n"
  then have "str_of_nat m = str_of_nat n"
    by (simp add: checkpoint_path_def path_join_def split: if_splits)
  then show ?thesis by (rule str_of_nat_inj)
qed

lemma for_each_keeps:
  assumes "\<And>x s. g (snd (body x s)) = g s"
  shows "g (snd (for_each body xs st)) = g st"
proof (induction xs arbitrary: st)
  case Nil
  show ?case by simp
next
  case (Cons x xs)
  show ?case
  proof (cases "body x st")
    case (Pair r s1)
    then have "g s1 = g st" using assms [of x st] by simp
    with Pair Cons show ?thesis by (cases r) simp_all
  qed
qed

lemma and_then_keeps:
  assumes "\<And>s. g (snd (f s)) = g s" and "\<And>s. g (snd (h s)) = g s"
  shows "g (snd (and_then f h st)) = g st"
proof (cases "f st")
  case (Pair r s1)
  then have "g s1 = g st" using assms(1) [of st] by simp
  with Pair assms(2) [of s1] show ?thesis by (cases r) (simp_all add: and_then_def)
qed

lemma for_each_inv:
  assumes "\<And>x s. I s \<Longrightarrow> I (snd (body x s)) \<and> fst (body x s) \<noteq> Some e" and "I st"
  shows "I (snd (for_each body xs st)) \<and> fst (for_each body xs st) \<noteq> Some e"
  using assms(2)
proof (induction xs arbitrary: st)
  case Nil
  then show ?case by simp
next
  case (Cons x xs)
  show ?case
  proof (cases "body x st")
    case (Pair r s1)
    then have "I s1" and "r \<noteq> Some e" using assms(1) [OF Cons.prems, of x] by simp_all
    with Pair Cons.IH [of s1] show ?thesis by (cases r) simp_all
  qed
qed

lemma and_then_inv:
  assumes "\<And>s. I s \<Longrightarrow> I (snd (f s)) \<and> fst (f s) \<noteq> Some e"
    and "\<And>s. I s \<Longrightarrow> I (snd (h s)) \<and> fst (h s) \<noteq> Some e" and "I st"
  shows "I (snd (and_then f h st)) \<and> fst (and_then f h st) \<noteq> Some e"
proof (cases "f st")
  case (Pair r s1)
  then have "I s1" and "r \<noteq> Some e" using assms(1) [OF assms(3)] by simp_all
  with Pair assms(2) [of s1] show ?thesis by (cases r) (simp_all add: and_then_def)
qed

lemma and_then_assoc: "and_then (and_then f g) h = and_then f (and_then g h)"
  by (rule ext) (simp add: and_then_def split: prod.splits option.splits)

lemma and_then_cases:
  assumes "and_then f h st = (r, st')"
  obtains (failed) e where "f st = (Some e, st')" "r = Some e"
  | (went_on) s1 where "f st = (None, s1)" "h s1 = (r, st')"
  using assms by (auto simp: and_then_def split: prod.splits option.splits)

section \<open>What each step of an epoch leaves alone\<close>

lemma for_each_inv_mem:
  assumes "\<And>x s. x \<in> set xs \<Longrightarrow> I s \<Longrightarrow> I (snd (body x s)) \<and> fst (body x s) \<noteq> Some e"
    and "I st"
  shows "I (snd (for_each body xs st)) \<and> fst (for_each body xs st) \<noteq> Some e"
  using assms
proof (induction xs arbitrary: st)
  case Nil
  then show ?case by simp
next
  case (Cons x xs)
  show ?case
  proof (cases "body x st")
    case (Pair r s1)
    then have "I s1" and "r \<noteq> Some e"
      using Cons.prems(1) [of x st] Cons.prems(2) by simp_all
    moreover have "I (snd (for_each body xs s1)) \<and> fst (for_each body xs s1) \<noteq> Some e"
      using Cons.IH [of s1] Cons.prems(1) \<open>I s1\<close> by simp
    ultimately show ?thesis using Pair by (cases r) simp_all
  qed
qed

lemma checkpoint_writes_append:
  "checkpoint_writes (a @ b) = checkpoint_writes a @ checkpoint_writes b"
  by (induction a rule: checkpoint_writes.induct) simp_all

lemma logged_epochs_append: "logged_epochs (a @ b) = logged_epochs a @ logged_epochs b"
  by (induction a rule: logged_epochs.induct) simp_all

lemma optimizer_steps_append: "optimizer_steps (a @ b) = optimizer_steps a + optimizer_steps b"
  by (induction a rule: optimizer_steps.induct) simp_all

lemma get_gpu_chunk_no_overfitting:
  "get_gpu_chunk decode fs path start stop \<noteq> Inl OverfittingException"
proof -
  have rows: "decode_rows decode rs \<noteq> Inl OverfittingException" for rs
    by (induction rs) (auto split: option.splits sum.splits)
  have "read_csv fs path start stop \<noteq> Inl OverfittingException"
    by (auto simp: read_csv_def split: option.splits node.splits list.splits)
  then show ?thesis
    using rows by (auto simp: get_gpu_chunk_def split: sum.splits)
qed

lemma iter_no_overfitting: "Inl OverfittingException \<notin> set (ChessDataset_iter decode fs ds)"
  using get_gpu_chunk_no_overfitting [of decode fs]
  by (auto simp: ChessDataset_iter_def Let_def split: option.splits sum.splits)

lemma train_sample_quiet:
  "outside (snd (train_sample ops pair st)) = outside st
   \<and> fst (train_sample ops pair st) \<noteq> Some OverfittingException"
  by (simp add: train_sample_def Let_def ChessModel_forward_def checkpoint_writes_append
      logged_epochs_append split: sum.splits option.splits)

lemma train_unpacked_quiet:
  "outside (snd (train_unpacked ops element st)) = outside st
   \<and> fst (train_unpacked ops element st) \<noteq> Some OverfittingException"
  using train_sample_quiet [of ops _ st]
  by (simp add: train_unpacked_def split: option.splits)

lemma train_item_quiet:
  fixes st :: "('r, 't, 'p, 'o) vars"
  assumes "it \<noteq> Inl OverfittingException"
  shows "outside (snd (train_item ops it st)) = outside st
   \<and> fst (train_item ops it st) \<noteq> Some OverfittingException"
proof (cases it)
  case (Inl e)
  with assms show ?thesis by simp
next
  case (Inr found)
  show ?thesis
  proof (cases found)
    case (Sample x y)
    have "outside (snd (for_each (train_unpacked ops) [x, y] st)) = outside st
      \<and> fst (for_each (train_unpacked ops) [x, y] st) \<noteq> Some OverfittingException"
    proof (rule for_each_inv [where I = "\<lambda>s :: ('r, 't, 'p, 'o) vars. outside s = outside st"])
      fix element and s :: "('r, 't, 'p, 'o) vars"
      assume "outside s = outside st"
      then show "outside (snd (train_unpacked ops element s)) = outside st
          \<and> fst (train_unpacked ops element s) \<noteq> Some OverfittingException"
        using train_unpacked_quiet [of ops element s] by simp
    qed simp
    with Inr Sample show ?thesis by simp
  next
    case (Chunk train_chunk)
    have "outside (snd (for_each (train_sample ops) train_chunk st)) = outside st
      \<and> fst (for_each (train_sample ops) train_chunk st) \<noteq> Some OverfittingException"
    proof (rule for_each_inv [where I = "\<lambda>s :: ('r, 't, 'p, 'o) vars. outside s = outside st"])
      fix pair and s :: "('r, 't, 'p, 'o) vars"
      assume "outside s = outside st"
      then show "outside (snd (train_sample ops pair s)) = outside st
          \<and> fst (train_sample ops pair s) \<noteq> Some OverfittingException"
        using train_sample_quiet [of ops pair s] by simp
    qed simp
    with Inr Chunk show ?thesis by simp
  qed
qed

lemma training_pass_quiet:
  fixes st :: "('r, 't, 'p, 'o) vars"
  shows "outside (snd (training_pass ops decode st)) = outside st
   \<and> fst (training_pass ops decode st) \<noteq> Some OverfittingException"
proof -
  let ?s1 = "st\<lparr>epoch_train_loss := 0, training := True\<rparr>"
  let ?items = "ChessDataset_iter decode (files ?s1) (DATASET_FOR_TRAIN ?s1)"
  have "outside (snd (for_each (train_item ops) ?items ?s1)) = outside ?s1
      \<and> fst (for_each (train_item ops) ?items ?s1) \<noteq> Some OverfittingException"
  proof (rule for_each_inv_mem [where I = "\<lambda>s :: ('r, 't, 'p, 'o) vars. outside s = outside ?s1"])
    fix x and s :: "('r, 't, 'p, 'o) vars"
    assume "x \<in> set ?items" and "outside s = outside ?s1"
    moreover from \<open>x \<in> set ?items\<close> have "x \<noteq> Inl OverfittingException"
      using iter_no_overfitting [of decode "files ?s1" "DATASET_FOR_TRAIN ?s1"] by auto
    ultimately show "outside (snd (train_item ops x s)) = outside ?s1
        \<and> fst (train_item ops x s) \<noteq> Some OverfittingException"
      using train_item_quiet [of x ops s] by simp
  qed simp
  then show ?thesis by (simp add: training_pass_def Let_def)
qed

lemma validate_item_quiet:
  assumes "snd it \<noteq> Inl OverfittingException"
  shows "outside (snd (validate_item ops it st)) = outside st
   \<and> learner (snd (validate_item ops it st)) = learner st
   \<and> training (snd (validate_item ops it st)) = training st
   \<and> fst (validate_item ops it st) \<noteq> Some OverfittingException"
proof (cases it)
  case (Pair i found)
  show ?thesis
  proof (cases found)
    case (Inl e)
    with Pair assms show ?thesis by simp
  next
    case (Inr got)
    with Pair show ?thesis
      by (cases got)
         (simp_all add: Let_def ChessModel_forward_def split: option.splits sum.splits)
  qed
qed

lemma validation_pass_quiet:
  fixes st :: "('r, 't, 'p, 'o) vars"
  shows "outside (snd (validation_pass ops decode st)) = outside st
   \<and> learner (snd (validation_pass ops decode st)) = learner st
   \<and> fst (validation_pass ops decode st) \<noteq> Some OverfittingException"
proof -
  let ?s1 = "st\<lparr>epoch_test_loss := 0, training := False\<rparr>"
  let ?items = "ChessDataset_iter decode (files ?s1) (DATASET_FOR_TEST ?s1)"
  let ?I = "\<lambda>s :: ('r, 't, 'p, 'o) vars. outside s = outside ?s1 \<and> learner s = learner ?s1"
  have "?I (snd (for_each (validate_item ops) (zip [0 ..< length ?items] ?items) ?s1))
      \<and> fst (for_each (validate_item ops) (zip [0 ..< length ?items] ?items) ?s1)
           \<noteq> Some OverfittingException"
  proof (rule for_each_inv_mem [where I = ?I])
    fix x and s :: "('r, 't, 'p, 'o) vars"
    assume mem: "x \<in> set (zip [0 ..< length ?items] ?items)" and inv: "?I s"
    from mem have "snd x \<in> set ?items"
      using set_zip_rightD [of "fst x" "snd x" "[0 ..< length ?items]" ?items] by simp
    then have "snd x \<noteq> Inl OverfittingException"
      using iter_no_overfitting [of decode "files ?s1" "DATASET_FOR_TEST ?s1"] by auto
    then show "?I (snd (validate_item ops x s))
        \<and> fst (validate_item ops x s) \<noteq> Some OverfittingException"
      using validate_item_quiet [of x ops s] inv by simp
  qed simp
  then show ?thesis by (simp add: validation_pass_def Let_def)
qed

lemma average_train_loss_quiet:
  "outside (snd (average_train_loss cfg st)) = outside st
   \<and> learner (snd (average_train_loss cfg st)) = learner st
   \<and> fst (average_train_loss cfg st) \<noteq> Some OverfittingException"
  by (simp add: average_train_loss_def)

lemma average_test_loss_quiet:
  "outside (snd (average_test_loss cfg st)) = outside st
   \<and> learner (snd (average_test_loss cfg st)) = learner st
   \<and> fst (average_test_loss cfg st) \<noteq> Some OverfittingException"
  by (simp add: average_test_loss_def)

section \<open>The effect of an epoch and of a run\<close>

lemma epoch_split:
  "epoch cfg ops decode cwd n =
     and_then (passes cfg ops decode) (and_then (report_and_save cwd n) overfitting_step)"
  by (simp add: epoch_def and_then_assoc)

lemma passes_quiet:
  fixes st :: "('r, 't, 'p, 'o) vars"
  shows "outside (snd (passes cfg ops decode st)) = outside st
   \<and> fst (passes cfg ops decode st) \<noteq> Some OverfittingException"
proof -
  let ?I = "\<lambda>s :: ('r, 't, 'p, 'o) vars. outside s = outside st"
  have t: "?I (snd (training_pass ops decode s)) \<and> fst (training_pass ops decode s) \<noteq> Some OverfittingException"
    if "?I s" for s using that training_pass_quiet [where ops = ops and decode = decode and st = s] by simp
  have a: "?I (snd (average_train_loss cfg s)) \<and> fst (average_train_loss cfg s) \<noteq> Some OverfittingException"
    if "?I s" for s using that average_train_loss_quiet [where cfg = cfg and st = s] by simp
  have v: "?I (snd (validation_pass ops decode s)) \<and> fst (validation_pass ops decode s) \<noteq> Some OverfittingException"
    if "?I s" for s using that validation_pass_quiet [where ops = ops and decode = decode and st = s] by simp
  have b: "?I (snd (average_test_loss cfg s)) \<and> fst (average_test_loss cfg s) \<noteq> Some OverfittingException"
    if "?I s" for s using that average_test_loss_quiet [where cfg = cfg and st = s] by simp
  have vb: "?I (snd (and_then (validation_pass ops decode) (average_test_loss cfg) s))
      \<and> fst (and_then (validation_pass ops decode) (average_test_loss cfg) s) \<noteq> Some OverfittingException"
    if "?I s" for s
    by (rule and_then_inv [where I = ?I, OF v b that])
  have avb: "?I (snd (and_then (average_train_loss cfg)
        (and_then (validation_pass ops decode) (average_test_loss cfg)) s))
      \<and> fst (and_then (average_train_loss cfg)
        (and_then (validation_pass ops decode) (average_test_loss cfg)) s) \<noteq> Some OverfittingException"
    if "?I s" for s
    by (rule and_then_inv [where I = ?I, OF a vb that])
  have start: "?I st" by simp
  show ?thesis
    by (rule and_then_inv [where I = ?I, OF t avb start])
qed

lemma report_and_save_effect:
  "fst (report_and_save cwd n st) = None
   \<and> files (snd (report_and_save cwd n st))
       = (files st)(checkpoint_path cwd n \<mapsto> Checkpoint (params st))
   \<and> checkpoint_writes (trace (snd (report_and_save cwd n st)))
       = checkpoint_writes (trace st) @ [(checkpoint_path cwd n, params st)]
   \<and> logged_epochs (trace (snd (report_and_save cwd n st))) = logged_epochs (trace st) @ [n]
   \<and> optimizer_steps (trace (snd (report_and_save cwd n st))) = optimizer_steps (trace st)
   \<and> test_losses (snd (report_and_save cwd n st)) = test_losses st
   \<and> params (snd (report_and_save cwd n st)) = params st
   \<and> opt (snd (report_and_save cwd n st)) = opt st"
  by (simp add: report_and_save_def checkpoint_writes_append logged_epochs_append
      optimizer_steps_append)

lemma overfitting_step_frame:
  "files (snd (overfitting_step st)) = files st
   \<and> trace (snd (overfitting_step st)) = trace st
   \<and> params (snd (overfitting_step st)) = params st
   \<and> opt (snd (overfitting_step st)) = opt st"
  by (simp add: overfitting_step_def split: sum.splits)

lemma overfitting_step_empty:
  "test_losses st = [] \<Longrightarrow>
     test_losses (snd (overfitting_step st)) = [] \<and> fst (overfitting_step st) = None"
  by (simp add: overfitting_step_def overfitting_test_def)

lemma epoch_history_empty:
  fixes st :: "('r, 't, 'p, 'o) vars"
  assumes "test_losses st = []"
  shows "test_losses (snd (epoch cfg ops decode cwd n st)) = []
   \<and> fst (epoch cfg ops decode cwd n st) \<noteq> Some OverfittingException"
proof -
  let ?I = "\<lambda>s :: ('r, 't, 'p, 'o) vars. test_losses s = []"
  have p: "?I (snd (passes cfg ops decode s)) \<and> fst (passes cfg ops decode s) \<noteq> Some OverfittingException"
    if "?I s" for s using that passes_quiet [where cfg = cfg and ops = ops and decode = decode and st = s] by simp
  have r: "?I (snd (report_and_save cwd n s)) \<and> fst (report_and_save cwd n s) \<noteq> Some OverfittingException"
    if "?I s" for s using that report_and_save_effect [where cwd = cwd and n = n and st = s] by simp
  have c: "?I (snd (overfitting_step s)) \<and> fst (overfitting_step s) \<noteq> Some OverfittingException"
    if "?I s" for s using overfitting_step_empty [OF that] by simp
  have rc: "?I (snd (and_then (report_and_save cwd n) overfitting_step s))
      \<and> fst (and_then (report_and_save cwd n) overfitting_step s) \<noteq> Some OverfittingException"
    if "?I s" for s
    by (rule and_then_inv [where I = ?I, OF r c that])
  show ?thesis
    unfolding epoch_split by (rule and_then_inv [where I = ?I, OF p rc assms])
qed

lemma epochs_history_empty:
  fixes st :: "('r, 't, 'p, 'o) vars"
  assumes "test_losses st = []"
  shows "test_losses (snd (epochs cfg ops decode cwd ns st)) = []
   \<and> fst (epochs cfg ops decode cwd ns st) \<noteq> Some OverfittingException"
  unfolding epochs_def
  by (rule for_each_inv [where I = "\<lambda>s :: ('r, 't, 'p, 'o) vars. test_losses s = []"])
     (use assms epoch_history_empty in blast)+

lemma epoch_effect:
  fixes st :: "('r, 't, 'p, 'o) vars"
  assumes "epoch cfg ops decode cwd n st = (r, st')"
  shows "(r \<noteq> None \<and> files st' = files st
          \<and> checkpoint_writes (trace st') = checkpoint_writes (trace st)
          \<and> logged_epochs (trace st') = logged_epochs (trace st))
       \<or> (\<exists>q. files st' = (files st)(checkpoint_path cwd n \<mapsto> Checkpoint q)
          \<and> checkpoint_writes (trace st') = checkpoint_writes (trace st) @ [(checkpoint_path cwd n, q)]
          \<and> logged_epochs (trace st') = logged_epochs (trace st) @ [n])"
  using assms unfolding epoch_split
proof (cases rule: and_then_cases)
  case (failed e)
  then show ?thesis using passes_quiet [where cfg = cfg and ops = ops and decode = decode and st = st] by simp
next
  case (went_on s1)
  then have same: "outside s1 = outside st"
    using passes_quiet [where cfg = cfg and ops = ops and decode = decode and st = st] by simp
  from went_on(2) show ?thesis
  proof (cases rule: and_then_cases)
    case (failed e)
    then show ?thesis using report_and_save_effect [where cwd = cwd and n = n and st = s1] by simp
  next
    case (went_on s2)
    then have "files st' = files s2" and "trace st' = trace s2"
      using overfitting_step_frame [where st = s2] by simp_all
    moreover have "files s2 = (files s1)(checkpoint_path cwd n \<mapsto> Checkpoint (params s1))"
      and "checkpoint_writes (trace s2) = checkpoint_writes (trace s1) @ [(checkpoint_path cwd n, params s1)]"
      and "logged_epochs (trace s2) = logged_epochs (trace s1) @ [n]"
      using went_on(1) report_and_save_effect [where cwd = cwd and n = n and st = s1] by simp_all
    ultimately show ?thesis using same by auto
  qed
qed

lemma epochs_effect:
  fixes st :: "('r, 't, 'p, 'o) vars"
  assumes "epochs cfg ops decode cwd ns st = (r, st')"
  shows "\<exists>k \<le> length ns.
           map fst (checkpoint_writes (trace st'))
             = map fst (checkpoint_writes (trace st)) @ map (checkpoint_path cwd) (take k ns)
         \<and> logged_epochs (trace st') = logged_epochs (trace st) @ take k ns
         \<and> (r = None \<longrightarrow> k = length ns)"
  using assms
proof (induction ns arbitrary: st)
  case Nil
  then show ?case by (simp add: epochs_def)
next
  case (Cons n ns)
  obtain r1 s1 where first: "epoch cfg ops decode cwd n st = (r1, s1)"
    by (cases "epoch cfg ops decode cwd n st")
  note eff = epoch_effect [OF first]
  show ?case
  proof (cases r1)
    case None
    with first Cons.prems have rest: "epochs cfg ops decode cwd ns s1 = (r, st')"
      by (simp add: epochs_def)
    from Cons.IH [OF rest] obtain k where k: "k \<le> length ns"
      "map fst (checkpoint_writes (trace st'))
         = map fst (checkpoint_writes (trace s1)) @ map (checkpoint_path cwd) (take k ns)"
      "logged_epochs (trace st') = logged_epochs (trace s1) @ take k ns"
      "r = None \<longrightarrow> k = length ns" by blast
    from eff None have "map fst (checkpoint_writes (trace s1))
          = map fst (checkpoint_writes (trace st)) @ [checkpoint_path cwd n]"
      and "logged_epochs (trace s1) = logged_epochs (trace st) @ [n]" by auto
    with k show ?thesis by (intro exI [of _ "Suc k"]) simp
  next
    case (Some e)
    with first Cons.prems have fin: "r = Some e" "st' = s1"
      by (simp_all add: epochs_def)
    from eff show ?thesis
    proof
      assume "r1 \<noteq> None \<and> files s1 = files st
          \<and> checkpoint_writes (trace s1) = checkpoint_writes (trace st)
          \<and> logged_epochs (trace s1) = logged_epochs (trace st)"
      with fin show ?thesis by (intro exI [of _ 0]) simp
    next
      assume "\<exists>q. files s1 = (files st)(checkpoint_path cwd n \<mapsto> Checkpoint q)
          \<and> checkpoint_writes (trace s1) = checkpoint_writes (trace st) @ [(checkpoint_path cwd n, q)]
          \<and> logged_epochs (trace s1) = logged_epochs (trace st) @ [n]"
      with fin show ?thesis by (intro exI [of _ 1]) auto
    qed
  qed
qed

lemma epochs_files:
  fixes st :: "('r, 't, 'p, 'o) vars"
  assumes "epochs cfg ops decode cwd ns st = (r, st')"
    and "distinct ns"
    and "\<forall>n \<in> set ns. checkpoint_path cwd n \<notin> fst ` set (checkpoint_writes (trace st))"
    and "\<forall>(p, q) \<in> set (checkpoint_writes (trace st)). files st p = Some (Checkpoint q)"
  shows "\<forall>(p, q) \<in> set (checkpoint_writes (trace st')). files st' p = Some (Checkpoint q)"
  using assms
proof (induction ns arbitrary: st)
  case Nil
  then show ?case by (simp add: epochs_def)
next
  case (Cons n ns)
  obtain r1 s1 where first: "epoch cfg ops decode cwd n st = (r1, s1)"
    by (cases "epoch cfg ops decode cwd n st")
  have fresh: "checkpoint_path cwd n \<notin> fst ` set (checkpoint_writes (trace st))"
    using Cons.prems(3) by simp
  have others: "checkpoint_path cwd m \<noteq> checkpoint_path cwd n" if "m \<in> set ns" for m
    using that Cons.prems(2) checkpoint_path_inj [of cwd m n] by auto
  have old_later: "\<forall>m \<in> set ns. checkpoint_path cwd m \<notin> fst ` set (checkpoint_writes (trace st))"
    using Cons.prems(3) by simp
  have kept: "\<forall>(p, q) \<in> set (checkpoint_writes (trace s1)). files s1 p = Some (Checkpoint q)"
    and later: "\<forall>m \<in> set ns. checkpoint_path cwd m \<notin> fst ` set (checkpoint_writes (trace s1))"
  proof -
    from epoch_effect [OF first]
    have "(\<forall>(p, q) \<in> set (checkpoint_writes (trace s1)). files s1 p = Some (Checkpoint q))
        \<and> (\<forall>m \<in> set ns. checkpoint_path cwd m \<notin> fst ` set (checkpoint_writes (trace s1)))"
    proof
      assume "r1 \<noteq> None \<and> files s1 = files st
          \<and> checkpoint_writes (trace s1) = checkpoint_writes (trace st)
          \<and> logged_epochs (trace s1) = logged_epochs (trace st)"
      then show ?thesis using Cons.prems(4) old_later by simp
    next
      assume "\<exists>q. files s1 = (files st)(checkpoint_path cwd n \<mapsto> Checkpoint q)
          \<and> checkpoint_writes (trace s1) = checkpoint_writes (trace st) @ [(checkpoint_path cwd n, q)]
          \<and> logged_epochs (trace s1) = logged_epochs (trace st) @ [n]"
      then obtain q where f: "files s1 = (files st)(checkpoint_path cwd n \<mapsto> Checkpoint q)"
        and w: "checkpoint_writes (trace s1) = checkpoint_writes (trace st) @ [(checkpoint_path cwd n, q)]"
        by blast
      have a: "files s1 p = Some (Checkpoint q')"
        if "(p, q') \<in> set (checkpoint_writes (trace s1))" for p q'
      proof (cases "(p, q') \<in> set (checkpoint_writes (trace st))")
        case True
        then have "p \<noteq> checkpoint_path cwd n" using fresh by force
        moreover have "files st p = Some (Checkpoint q')" using True Cons.prems(4) by blast
        ultimately show ?thesis by (simp add: f)
      next
        case False
        with that w have "p = checkpoint_path cwd n" and "q' = q" by simp_all
        then show ?thesis by (simp add: f)
      qed
      have b: "checkpoint_path cwd m \<notin> fst ` set (checkpoint_writes (trace s1))"
        if "m \<in> set ns" for m
        using old_later others [OF that] that by (simp add: w)
      show ?thesis using a b by blast
    qed
    then show "\<forall>(p, q) \<in> set (checkpoint_writes (trace s1)). files s1 p = Some (Checkpoint q)"
      and "\<forall>m \<in> set ns. checkpoint_path cwd m \<notin> fst ` set (checkpoint_writes (trace s1))"
      by simp_all
  qed
  show ?case
  proof (cases r1)
    case None
    with first Cons.prems(1) have "epochs cfg ops decode cwd ns s1 = (r, st')"
      by (simp add: epochs_def)
    then show ?thesis using Cons.IH [of s1] Cons.prems(2) later kept by simp
  next
    case (Some e)
    with first Cons.prems(1) have "st' = s1" by (simp add: epochs_def)
    with kept show ?thesis by simp
  qed
qed

lemma checkpoint_not_log: "checkpoint_path cwd n \<noteq> LOG_PATH cwd uuid"
proof
  assume "checkpoint_path cwd n = LOG_PATH cwd uuid"
  then have "last (checkpoint_path cwd n) = last (LOG_PATH cwd uuid)" by simp
  then show False by (simp add: checkpoint_path_def LOG_PATH_def path_join_last)
qed

lemma checkpoint_not_weights_dir: "checkpoint_path cwd n \<noteq> DIR_FOR_WEIGHTS cwd"
proof
  assume "checkpoint_path cwd n = DIR_FOR_WEIGHTS cwd"
  then have "last (checkpoint_path cwd n) = last (DIR_FOR_WEIGHTS cwd)" by simp
  then show False
    by (simp add: checkpoint_path_def path_join_last) (simp add: DIR_FOR_WEIGHTS_def path_join_last)
qed

lemma take_epoch_numbers: "k \<le> N \<Longrightarrow> take k [1 ..< Suc N] = [1 ..< Suc k]"
  using take_upt [of 1 k "Suc N"] by simp

lemma distinct_checkpoint_paths: "distinct (map (checkpoint_path cwd) [1 ..< Suc k])"
  by (simp add: distinct_map inj_on_def) (blast dest: checkpoint_path_inj)

lemma initial_vars_observed:
  "checkpoint_writes (trace (initial_vars ops fs train test)) = []
   \<and> logged_epochs (trace (initial_vars ops fs train test)) = []
   \<and> test_losses (initial_vars ops fs train test) = []
   \<and> files (initial_vars ops fs train test) = fs"
  by (simp add: initial_vars_def)

lemma run_observed:
  assumes "run cfg ops decode cwd uuid fs0 = (r, w)"
  shows "\<exists>k \<le> NUMBER_OF_EPOCHS cfg.
           map fst (checkpoint_writes (left_trace w))
             = map (checkpoint_path cwd) (take k [1 ..< Suc (NUMBER_OF_EPOCHS cfg)])
         \<and> logged_epochs (left_trace w) = take k [1 ..< Suc (NUMBER_OF_EPOCHS cfg)]
         \<and> (r = None \<longrightarrow> k = NUMBER_OF_EPOCHS cfg)
         \<and> (\<forall>(p, q) \<in> set (checkpoint_writes (left_trace w)). left_files w p = Some (Checkpoint q))
         \<and> r \<noteq> Some OverfittingException"
proof -
  let ?N = "NUMBER_OF_EPOCHS cfg"
  let ?fs1 = "fs0(LOG_PATH cwd uuid \<mapsto> LogFile)"
  let ?fs2 = "?fs1(DIR_FOR_WEIGHTS cwd \<mapsto> Dir)"
  let ?train = "ChessDataset_init decode (CHUNK_SIZE cfg) ?fs2 (DATASET_PATH cwd)
                 0 (TRAIN_DATASET_LENGTH cfg)"
  let ?test = "ChessDataset_init decode (CHUNK_SIZE cfg) ?fs2 (DATASET_PATH cwd)
                 (TRAIN_DATASET_LENGTH cfg) (TRAIN_DATASET_LENGTH cfg + TEST_DATASET_LENGTH cfg)"
  have early: ?thesis if "checkpoint_writes (left_trace w) = []" "logged_epochs (left_trace w) = []"
      "r \<noteq> None" "r \<noteq> Some OverfittingException"
    using that by (intro exI [of _ 0]) auto
  consider
      (dir) "?fs1 (DIR_FOR_WEIGHTS cwd) \<noteq> None"
    | (table) "?fs1 (DIR_FOR_WEIGHTS cwd) = None" "?fs2 (DATASET_PATH cwd) = None"
    | (train) e where "?fs1 (DIR_FOR_WEIGHTS cwd) = None" "?fs2 (DATASET_PATH cwd) \<noteq> None"
        "?train = Inl e"
    | (test) train e where "?fs1 (DIR_FOR_WEIGHTS cwd) = None" "?fs2 (DATASET_PATH cwd) \<noteq> None"
        "?train = Inr train" "?test = Inl e"
    | (loop) train test where "?fs1 (DIR_FOR_WEIGHTS cwd) = None" "?fs2 (DATASET_PATH cwd) \<noteq> None"
        "?train = Inr train" "?test = Inr test"
    by (cases ?train; cases ?test) auto
  then show ?thesis
  proof cases
    case dir
    with assms show ?thesis by (intro early) (auto simp: run_def Let_def)
  next
    case table
    with assms show ?thesis by (intro early) (auto simp: run_def Let_def)
  next
    case (train e)
    have "e \<noteq> OverfittingException"
      using train(3) get_gpu_chunk_no_overfitting [of decode ?fs2 "DATASET_PATH cwd" 0 "TRAIN_DATASET_LENGTH cfg"]
      by (auto simp: ChessDataset_init_def Let_def is_test_range_def split: if_splits sum.splits)
    with train assms show ?thesis by (intro early) (auto simp: run_def Let_def)
  next
    case (test train e)
    have "e \<noteq> OverfittingException"
      using test(4) get_gpu_chunk_no_overfitting [of decode ?fs2 "DATASET_PATH cwd"]
      by (auto simp: ChessDataset_init_def Let_def is_test_range_def split: if_splits sum.splits)
    with test assms show ?thesis by (intro early) (auto simp: run_def Let_def)
  next
    case (loop train test)
    let ?st0 = "initial_vars ops ?fs2 train test"
    obtain r' st' where ep: "epochs cfg ops decode cwd [1 ..< Suc ?N] ?st0 = (r', st')"
      by (cases "epochs cfg ops decode cwd [1 ..< Suc ?N] ?st0")
    note init = initial_vars_observed [of ops ?fs2 train test]
    have i1: "checkpoint_writes (trace ?st0) = []" and i2: "logged_epochs (trace ?st0) = []"
      using init by simp_all
    have len: "length [1 ..< Suc ?N] = ?N" by (simp only: length_upt diff_Suc_1)
    from epochs_effect [OF ep] obtain k where k0: "k \<le> length [1 ..< Suc ?N]"
      and p0: "map fst (checkpoint_writes (trace st'))
         = map fst (checkpoint_writes (trace ?st0)) @ map (checkpoint_path cwd) (take k [1 ..< Suc ?N])"
      and l0: "logged_epochs (trace st') = logged_epochs (trace ?st0) @ take k [1 ..< Suc ?N]"
      and a0: "r' = None \<longrightarrow> k = length [1 ..< Suc ?N]" by blast
    have k: "k \<le> ?N"
      "map fst (checkpoint_writes (trace st')) = map (checkpoint_path cwd) (take k [1 ..< Suc ?N])"
      "logged_epochs (trace st') = take k [1 ..< Suc ?N]"
      "r' = None \<longrightarrow> k = ?N"
      using k0 p0 l0 a0 by (simp_all only: len i1 i2 list.map append_Nil)
    have held: "\<forall>(p, q) \<in> set (checkpoint_writes (trace st')). files st' p = Some (Checkpoint q)"
      by (rule epochs_files [OF ep]) (simp_all add: init)
    have "r' \<noteq> Some OverfittingException"
      using epochs_history_empty [of ?st0 cfg ops decode cwd "[1 ..< Suc ?N]"] ep init by simp
    moreover have "r = r'" and "left_files w = files st'"
      and "checkpoint_writes (left_trace w) = checkpoint_writes (trace st')"
      and "logged_epochs (left_trace w) = logged_epochs (trace st')"
      using assms loop ep
      by (cases r'; auto simp: run_def Let_def world_of_def checkpoint_writes_append
            logged_epochs_append)+
    ultimately show ?thesis using k held by (intro exI [of _ k]) simp
  qed
qed

lemma and_then_keeps_after:
  assumes "\<And>s. g (snd (h s)) = g s"
  shows "g (snd (and_then f h st)) = g (snd (f st))"
proof (cases "f st")
  case (Pair r s1)
  with assms [of s1] show ?thesis by (cases r) (simp_all add: and_then_def)
qed

section \<open>Properties of a run\<close>

text \<open>
  Claim C5. The check at the end of an epoch hands back a history of 15 or fewer
  entries unchanged, so nothing is appended to it. The retained history is empty when
  the epochs start and is still empty after any number of epochs, whatever happens in
  them; neither the epochs nor the run as a whole ever end with the overfitting
  exception; and a run that ends without an exception has logged every configured
  epoch.
\<close>

theorem history_stays_empty:
  "(length history \<le> 15 \<longrightarrow> overfitting_test history loss = Inr history)
   \<and> test_losses (initial_vars ops fs train test) = []
   \<and> test_losses (snd (epochs cfg ops decode cwd ns (initial_vars ops fs train test))) = []
   \<and> fst (epochs cfg ops decode cwd ns (initial_vars ops fs train test)) \<noteq> Some OverfittingException
   \<and> fst (run cfg ops decode cwd uuid fs0) \<noteq> Some OverfittingException
   \<and> (fst (run cfg ops decode cwd uuid fs0) = None \<longrightarrow>
        logged_epochs (left_trace (snd (run cfg ops decode cwd uuid fs0)))
          = [1 ..< Suc (NUMBER_OF_EPOCHS cfg)])"
proof -
  have a: "test_losses (snd (epochs cfg ops decode cwd ns (initial_vars ops fs train test))) = []
   \<and> fst (epochs cfg ops decode cwd ns (initial_vars ops fs train test)) \<noteq> Some OverfittingException"
    by (rule epochs_history_empty) (simp add: initial_vars_def)
  obtain r w where rw: "run cfg ops decode cwd uuid fs0 = (r, w)"
    by (cases "run cfg ops decode cwd uuid fs0")
  from run_observed [OF rw] have "r \<noteq> Some OverfittingException"
    and "r = None \<longrightarrow> logged_epochs (left_trace w) = [1 ..< Suc (NUMBER_OF_EPOCHS cfg)]"
    by auto
  moreover have "length history \<le> 15 \<longrightarrow> overfitting_test history loss = Inr history"
    by (simp add: overfitting_test_def)
  moreover have "test_losses (initial_vars ops fs train test) = []"
    by (simp add: initial_vars_def)
  ultimately show ?thesis using a rw by simp
qed

theorem history_stays_empty_witness:
  "overfitting_test [] 5 = Inr []
   \<and> fst (run (example_config 2) counting_torch decode_numbered ''/home/chess'' ''u''
          (example_fs ''/home/chess'')) = None
   \<and> logged_epochs (left_trace (snd (run (example_config 2) counting_torch decode_numbered
          ''/home/chess'' ''u'' (example_fs ''/home/chess'')))) = [1, 2]
   \<and> logged_test_losses (left_trace (snd (run (example_config 2) counting_torch decode_numbered
          ''/home/chess'' ''u'' (example_fs ''/home/chess'')))) = [2, 4]"
proof -
  let ?run = "run (example_config 2) counting_torch decode_numbered ''/home/chess'' ''u''
      (example_fs ''/home/chess'')"
  note t = history_stays_empty [where cfg = "example_config 2" and ops = counting_torch
      and decode = decode_numbered and cwd = "''/home/chess''" and uuid = "''u''"
      and ?fs0.0 = "example_fs ''/home/chess''" and history = "[]" and loss = 5]
  have short: "length ([] :: real list) \<le> 15" by simp
  have kept: "overfitting_test [] 5 = Inr []" using t short by blast
  have completed: "fst ?run = None" by code_simp
  have "logged_epochs (left_trace (snd ?run)) = [1 ..< Suc (NUMBER_OF_EPOCHS (example_config 2))]"
    using t completed by blast
  also have "\<dots> = [1, 2]" by code_simp
  finally have logged: "logged_epochs (left_trace (snd ?run)) = [1, 2]" .
  have losses: "logged_test_losses (left_trace (snd ?run)) = [2, 4]" by code_simp
  show ?thesis using kept completed logged losses by blast
qed

text \<open>
  Claim C6. When the weights directory exists at startup, or the table does not, the
  run ends with the setup exception, its trace is empty (no optimizer step, no
  checkpoint write, no line in the log, not even the start line), and no checkpoint
  path has changed in the file system.
\<close>

theorem setup_failure_before_epochs:
  assumes "fs0 (DIR_FOR_WEIGHTS cwd) \<noteq> None \<or> fs0 (DATASET_PATH cwd) = None"
  shows "fst (run cfg ops decode cwd uuid fs0)
           = Some (FileExistsError
               (if fs0 (DIR_FOR_WEIGHTS cwd) \<noteq> None then WeightsDirExists else DatasetNotFound))
       \<and> left_trace (snd (run cfg ops decode cwd uuid fs0)) = []
       \<and> left_files (snd (run cfg ops decode cwd uuid fs0)) (checkpoint_path cwd n)
           = fs0 (checkpoint_path cwd n)"
  using assms log_not_weights_dir [of cwd uuid] log_not_dataset [of cwd uuid]
    weights_dir_not_dataset [of cwd] checkpoint_not_log [of cwd n uuid]
    checkpoint_not_weights_dir [of cwd n]
  by (auto simp: run_def Let_def)

theorem setup_failure_before_epochs_witness:
  "fst (main counting_torch decode_numbered ''/home/chess'' ''u''
          ((example_fs ''/home/chess'')(''/home/chess/weights'' \<mapsto> Dir)))
     = Some (FileExistsError WeightsDirExists)
   \<and> left_trace (snd (main counting_torch decode_numbered ''/home/chess'' ''u''
          ((example_fs ''/home/chess'')(''/home/chess/weights'' \<mapsto> Dir)))) = []
   \<and> fst (main counting_torch decode_numbered ''/home/chess'' ''u'' Map.empty)
     = Some (FileExistsError DatasetNotFound)
   \<and> left_trace (snd (main counting_torch decode_numbered ''/home/chess'' ''u'' Map.empty)) = []"
proof -
  let ?fs = "(example_fs ''/home/chess'')(''/home/chess/weights'' \<mapsto> Dir) :: (int, nat) fs"
  have dir: "DIR_FOR_WEIGHTS ''/home/chess'' = ''/home/chess/weights''"
    by (simp add: DIR_FOR_WEIGHTS_def path_join_def)
  have a: "?fs (DIR_FOR_WEIGHTS ''/home/chess'') \<noteq> None \<or> ?fs (DATASET_PATH ''/home/chess'') = None"
    by (simp add: dir)
  have b: "(Map.empty :: (int, nat) fs) (DIR_FOR_WEIGHTS ''/home/chess'') \<noteq> None
      \<or> (Map.empty :: (int, nat) fs) (DATASET_PATH ''/home/chess'') = None"
    by simp
  have c: "?fs (DIR_FOR_WEIGHTS ''/home/chess'') \<noteq> None" by (simp add: dir)
  have d: "\<not> (Map.empty :: (int, nat) fs) (DIR_FOR_WEIGHTS ''/home/chess'') \<noteq> None" by simp
  have i1: "(if ?fs (DIR_FOR_WEIGHTS ''/home/chess'') \<noteq> None then WeightsDirExists
      else DatasetNotFound) = WeightsDirExists"
    using c by (rule if_P)
  have i2: "(if (Map.empty :: (int, nat) fs) (DIR_FOR_WEIGHTS ''/home/chess'') \<noteq> None
      then WeightsDirExists else DatasetNotFound) = DatasetNotFound"
    using d by (rule if_not_P)
  note t1 = setup_failure_before_epochs [OF a, where cfg = script_config and ops = counting_torch
          and decode = decode_numbered and uuid = "''u''" and n = 1]
  note t2 = setup_failure_before_epochs [OF b, where cfg = script_config and ops = counting_torch
          and decode = decode_numbered and uuid = "''u''" and n = 1]
  have f1: "fst (run script_config counting_torch decode_numbered ''/home/chess'' ''u'' ?fs)
      = Some (FileExistsError WeightsDirExists)"
    and g1: "left_trace (snd (run script_config counting_torch decode_numbered ''/home/chess'' ''u'' ?fs)) = []"
    using t1 by (simp_all only: i1)
  have f2: "fst (run script_config counting_torch decode_numbered ''/home/chess'' ''u''
        (Map.empty :: (int, nat) fs)) = Some (FileExistsError DatasetNotFound)"
    and g2: "left_trace (snd (run script_config counting_torch decode_numbered ''/home/chess'' ''u''
        (Map.empty :: (int, nat) fs))) = []"
    using t2 by (simp_all only: i2)
  show ?thesis unfolding main_def using f1 g1 f2 g2 by blast
qed

text \<open>
  Claim C7. The checkpoint writes of a run are, in order, one for each of the epochs
  1 to k, where k is the number of epochs that reached their report; the same epochs
  are the ones logged; k is the configured number of epochs when the run ends without
  an exception; the paths written are pairwise distinct; and when the run ends every
  path written still holds the parameters written to it.
\<close>

theorem one_checkpoint_per_epoch:
  assumes "run cfg ops decode cwd uuid fs0 = (r, w)"
  shows "map fst (checkpoint_writes (left_trace w))
           = map (checkpoint_path cwd) [1 ..< Suc (length (checkpoint_writes (left_trace w)))]
       \<and> logged_epochs (left_trace w) = [1 ..< Suc (length (checkpoint_writes (left_trace w)))]
       \<and> length (checkpoint_writes (left_trace w)) \<le> NUMBER_OF_EPOCHS cfg
       \<and> (r = None \<longrightarrow> length (checkpoint_writes (left_trace w)) = NUMBER_OF_EPOCHS cfg)
       \<and> distinct (map fst (checkpoint_writes (left_trace w)))
       \<and> (\<forall>(p, q) \<in> set (checkpoint_writes (left_trace w)). left_files w p = Some (Checkpoint q))"
proof -
  from run_observed [OF assms] obtain k where k: "k \<le> NUMBER_OF_EPOCHS cfg"
    and paths: "map fst (checkpoint_writes (left_trace w))
             = map (checkpoint_path cwd) (take k [1 ..< Suc (NUMBER_OF_EPOCHS cfg)])"
    and logged: "logged_epochs (left_trace w) = take k [1 ..< Suc (NUMBER_OF_EPOCHS cfg)]"
    and all: "r = None \<longrightarrow> k = NUMBER_OF_EPOCHS cfg"
    and held: "\<forall>(p, q) \<in> set (checkpoint_writes (left_trace w)). left_files w p = Some (Checkpoint q)"
    by blast
  have paths': "map fst (checkpoint_writes (left_trace w)) = map (checkpoint_path cwd) [1 ..< Suc k]"
    using paths by (simp only: take_epoch_numbers [OF k])
  have logged': "logged_epochs (left_trace w) = [1 ..< Suc k]"
    using logged by (simp only: take_epoch_numbers [OF k])
  have "length (map fst (checkpoint_writes (left_trace w)))
      = length (map (checkpoint_path cwd) [1 ..< Suc k])"
    by (simp only: paths')
  then have len: "length (checkpoint_writes (left_trace w)) = k" by simp
  have dist: "distinct (map fst (checkpoint_writes (left_trace w)))"
    unfolding paths' by (rule distinct_checkpoint_paths)
  show ?thesis unfolding len using paths' logged' k all held dist by blast
qed

theorem one_checkpoint_per_epoch_witness:
  "fst (run (example_config 2) counting_torch decode_numbered ''/home/chess'' ''u'' (example_fs ''/home/chess'')) = None
   \<and> checkpoint_writes (left_trace (snd (run (example_config 2) counting_torch decode_numbered ''/home/chess'' ''u'' (example_fs ''/home/chess''))))
       = [(''/home/chess/weights/model_epoch_1.pt'', 2), (''/home/chess/weights/model_epoch_2.pt'', 4)]
   \<and> logged_epochs (left_trace (snd (run (example_config 2) counting_torch decode_numbered ''/home/chess'' ''u'' (example_fs ''/home/chess'')))) = [1, 2]
   \<and> left_files (snd (run (example_config 2) counting_torch decode_numbered ''/home/chess'' ''u'' (example_fs ''/home/chess''))) ''/home/chess/weights/model_epoch_1.pt''
       = Some (Checkpoint 2)
   \<and> left_files (snd (run (example_config 2) counting_torch decode_numbered ''/home/chess'' ''u'' (example_fs ''/home/chess''))) ''/home/chess/weights/model_epoch_2.pt''
       = Some (Checkpoint 4)"
proof -
  let ?run = "run (example_config 2) counting_torch decode_numbered ''/home/chess'' ''u'' (example_fs ''/home/chess'')"
  have pair: "?run = (fst ?run, snd ?run)" by simp
  note t = one_checkpoint_per_epoch [OF pair]
  have completed: "fst ?run = None" by code_simp
  have writes: "checkpoint_writes (left_trace (snd ?run))
      = [(''/home/chess/weights/model_epoch_1.pt'', 2), (''/home/chess/weights/model_epoch_2.pt'', 4)]"
    by code_simp
  have "logged_epochs (left_trace (snd ?run)) = [1 ..< Suc (length (checkpoint_writes (left_trace (snd ?run))))]"
    using t by blast
  also have "\<dots> = [1, 2]" by (simp only: writes) code_simp
  finally have logged: "logged_epochs (left_trace (snd ?run)) = [1, 2]" .
  have held: "\<forall>(p, q) \<in> set (checkpoint_writes (left_trace (snd ?run))).
      left_files (snd ?run) p = Some (Checkpoint q)"
    using t by blast
  have first: "left_files (snd ?run) ''/home/chess/weights/model_epoch_1.pt'' = Some (Checkpoint 2)"
    and second: "left_files (snd ?run) ''/home/chess/weights/model_epoch_2.pt'' = Some (Checkpoint 4)"
    using held unfolding writes by simp_all
  show ?thesis using completed writes logged first second by blast
qed

text \<open>
  Claim C8. The validation pass leaves the parameters, the optimizer state and the
  trace as they were, so it takes no optimizer step; and when an epoch ends, the
  parameters and the number of optimizer steps taken are those its training pass
  left: nothing after the training pass changes them.
\<close>

theorem validation_leaves_parameters:
  fixes st :: "('r, 't, 'p, 'o) vars"
  shows "params (snd (validation_pass ops decode st)) = params st
   \<and> opt (snd (validation_pass ops decode st)) = opt st
   \<and> trace (snd (validation_pass ops decode st)) = trace st
   \<and> params (snd (epoch cfg ops decode cwd n st)) = params (snd (training_pass ops decode st))
   \<and> optimizer_steps (trace (snd (epoch cfg ops decode cwd n st)))
       = optimizer_steps (trace (snd (training_pass ops decode st)))"
proof -
  let ?g = "\<lambda>s :: ('r, 't, 'p, 'o) vars. (params s, optimizer_steps (trace s))"
  have v: "?g (snd (validation_pass ops decode s)) = ?g s" for s
    using validation_pass_quiet [where ops = ops and decode = decode and st = s] by simp
  have a: "?g (snd (average_train_loss cfg s)) = ?g s" for s
    using average_train_loss_quiet [where cfg = cfg and st = s] by simp
  have b: "?g (snd (average_test_loss cfg s)) = ?g s" for s
    using average_test_loss_quiet [where cfg = cfg and st = s] by simp
  have r: "?g (snd (report_and_save cwd n s)) = ?g s" for s
    using report_and_save_effect [where cwd = cwd and n = n and st = s] by simp
  have c: "?g (snd (overfitting_step s)) = ?g s" for s
    using overfitting_step_frame [where st = s] by simp
  have rest: "?g (snd (and_then (average_train_loss cfg)
      (and_then (validation_pass ops decode)
      (and_then (average_test_loss cfg)
      (and_then (report_and_save cwd n) overfitting_step))) s)) = ?g s" for s
    by (intro and_then_keeps [where g = ?g] a v b r c)
  have "?g (snd (epoch cfg ops decode cwd n st)) = ?g (snd (training_pass ops decode st))"
    unfolding epoch_def by (rule and_then_keeps_after [where g = ?g]) (rule rest)
  then show ?thesis
    using validation_pass_quiet [where ops = ops and decode = decode and st = st] by simp
qed

theorem validation_leaves_parameters_witness:
  "params (snd (validation_pass counting_torch decode_numbered
      (initial_vars counting_torch (example_fs ''/home/chess'')
         \<lparr>dataset_path = DATASET_PATH ''/home/chess'', start_index = 0, stop_index = 1,
          chunk_size = 1, is_test_dataset = True, test_chunk = Some [(0, 0)]\<rparr>
         \<lparr>dataset_path = DATASET_PATH ''/home/chess'', start_index = 1, stop_index = 2,
          chunk_size = 1, is_test_dataset = True, test_chunk = Some [(1, 1)]\<rparr>))) = 0
   \<and> params (snd (epoch (example_config 1) counting_torch decode_numbered ''/home/chess'' 1
      (initial_vars counting_torch (example_fs ''/home/chess'')
         \<lparr>dataset_path = DATASET_PATH ''/home/chess'', start_index = 0, stop_index = 1,
          chunk_size = 1, is_test_dataset = True, test_chunk = Some [(0, 0)]\<rparr>
         \<lparr>dataset_path = DATASET_PATH ''/home/chess'', start_index = 1, stop_index = 2,
          chunk_size = 1, is_test_dataset = True, test_chunk = Some [(1, 1)]\<rparr>))) = 2"
proof -
  let ?st = "initial_vars counting_torch (example_fs ''/home/chess'')
         \<lparr>dataset_path = DATASET_PATH ''/home/chess'', start_index = 0, stop_index = 1,
          chunk_size = 1, is_test_dataset = True, test_chunk = Some [(0, 0)]\<rparr>
         \<lparr>dataset_path = DATASET_PATH ''/home/chess'', start_index = 1, stop_index = 2,
          chunk_size = 1, is_test_dataset = True, test_chunk = Some [(1, 1)]\<rparr>"
  note t = validation_leaves_parameters [where ops = counting_torch and decode = decode_numbered
      and st = ?st and cfg = "example_config 1" and cwd = "''/home/chess''" and n = 1]
  have start: "params ?st = 0" by (simp add: initial_vars_def counting_torch_def)
  have trained: "params (snd (training_pass counting_torch decode_numbered ?st)) = 2" by code_simp
  have a: "params (snd (validation_pass counting_torch decode_numbered ?st)) = 0"
    using t start by simp
  have b: "params (snd (epoch (example_config 1) counting_torch decode_numbered ''/home/chess'' 1 ?st)) = 2"
    using t trained by simp
  show ?thesis using a b by blast
qed

text \<open>
  Claim C9. The log file is created before anything is checked and the weights
  directory before the table is looked for: when neither the directory nor the table
  exists, the run ends with the missing-table exception and leaves the file system
  with the new log file and the new, empty weights directory added; when the
  directory exists, it leaves the new log file.
\<close>

theorem setup_failure_leaves_files:
  "(fs0 (DIR_FOR_WEIGHTS cwd) = None \<and> fs0 (DATASET_PATH cwd) = None \<longrightarrow>
      run cfg ops decode cwd uuid fs0
        = (Some (FileExistsError DatasetNotFound),
           \<lparr>left_files = fs0(LOG_PATH cwd uuid \<mapsto> LogFile, DIR_FOR_WEIGHTS cwd \<mapsto> Dir),
            left_trace = []\<rparr>))
   \<and> (fs0 (DIR_FOR_WEIGHTS cwd) \<noteq> None \<longrightarrow>
      run cfg ops decode cwd uuid fs0
        = (Some (FileExistsError WeightsDirExists),
           \<lparr>left_files = fs0(LOG_PATH cwd uuid \<mapsto> LogFile), left_trace = []\<rparr>))"
  using log_not_weights_dir [of cwd uuid] log_not_dataset [of cwd uuid]
    weights_dir_not_dataset [of cwd]
  by (auto simp: run_def Let_def)

theorem setup_failure_leaves_files_witness:
  "fst (main counting_torch decode_numbered ''/home/chess'' ''u'' Map.empty)
     = Some (FileExistsError DatasetNotFound)
   \<and> left_files (snd (main counting_torch decode_numbered ''/home/chess'' ''u'' Map.empty))
       ''/home/chess/weights'' = Some Dir
   \<and> left_files (snd (main counting_torch decode_numbered ''/home/chess'' ''u'' Map.empty))
       ''/home/chess/train_u.log'' = Some LogFile
   \<and> left_files (snd (main counting_torch decode_numbered ''/home/chess'' ''u''
          ((example_fs ''/home/chess'')(''/home/chess/weights'' \<mapsto> Dir))))
       ''/home/chess/train_u.log'' = Some LogFile"
proof -
  let ?fs = "(example_fs ''/home/chess'')(''/home/chess/weights'' \<mapsto> Dir) :: (int, nat) fs"
  have dir: "DIR_FOR_WEIGHTS ''/home/chess'' = ''/home/chess/weights''"
    by (simp add: DIR_FOR_WEIGHTS_def path_join_def)
  have log: "LOG_PATH ''/home/chess'' ''u'' = ''/home/chess/train_u.log''"
    by (simp add: LOG_PATH_def path_join_def)
  have a: "(Map.empty :: (int, nat) fs) (DIR_FOR_WEIGHTS ''/home/chess'') = None
      \<and> (Map.empty :: (int, nat) fs) (DATASET_PATH ''/home/chess'') = None" by simp
  have b: "?fs (DIR_FOR_WEIGHTS ''/home/chess'') \<noteq> None" by (simp add: dir)
  have r1: "run script_config counting_torch decode_numbered ''/home/chess'' ''u'' Map.empty
      = (Some (FileExistsError DatasetNotFound),
         \<lparr>left_files = Map.empty(LOG_PATH ''/home/chess'' ''u'' \<mapsto> LogFile,
              DIR_FOR_WEIGHTS ''/home/chess'' \<mapsto> Dir), left_trace = []\<rparr>)"
    using setup_failure_leaves_files [where ?fs0.0 = "Map.empty :: (int, nat) fs"
        and cwd = "''/home/chess''" and cfg = script_config and ops = counting_torch
        and decode = decode_numbered and uuid = "''u''"] a by blast
  have r2: "run script_config counting_torch decode_numbered ''/home/chess'' ''u'' ?fs
      = (Some (FileExistsError WeightsDirExists),
         \<lparr>left_files = ?fs(LOG_PATH ''/home/chess'' ''u'' \<mapsto> LogFile), left_trace = []\<rparr>)"
    using setup_failure_leaves_files [where ?fs0.0 = ?fs
        and cwd = "''/home/chess''" and cfg = script_config and ops = counting_torch
        and decode = decode_numbered and uuid = "''u''"] b by blast
  show ?thesis unfolding main_def r1 r2 by (simp add: dir log)
qed






end
